theory Spec2Isabelle
  imports Complex_Main "HOL-Library.Char_ord" "HOL-Library.List_Lexorder"
    "HOL-Library.Product_Lexorder"
begin

section \<open>URL script: character-level encoding\<close>

text \<open>
  \<^verbatim>\<open>url_cnn_training.py\<close>. A URL is a Python string, modelled as the list of its
  code points (\<open>ord\<close> of each character), so that code points above 127 are inputs
  too. \<open>max_length\<close> is a length; the script only ever passes its default.
  The scripts are separate modules that reuse constant names; where two of them define
  the same name, the constant carries its script (\<open>VOCAB_SIZE\<close> is
  \<open>URL_VOCAB_SIZE\<close> here and \<open>SMS_VOCAB_SIZE\<close> below).
\<close>

definition MAX_URL_LENGTH :: nat where
  "MAX_URL_LENGTH = 200"

definition URL_VOCAB_SIZE :: nat where
  "URL_VOCAB_SIZE = 128"

text \<open>
  The body of the loop of \<open>preprocess_urls\<close>: the comprehension over
  \<open>url[:max_length]\<close>, then the padding under \<open>if len(seq) < max_length\<close>.
\<close>

definition encode_url :: "nat \<Rightarrow> nat list \<Rightarrow> nat list" where
  "encode_url max_length url =
     (let seq = map (\<lambda>c. min c (URL_VOCAB_SIZE - 1)) (take max_length url)
      in if length seq < max_length
         then seq @ replicate (max_length - length seq) 0
         else seq)"

definition preprocess_urls :: "nat list list \<Rightarrow> nat \<Rightarrow> nat list list" where
  "preprocess_urls urls max_length = map (encode_url max_length) urls"

section \<open>Tables and the three dataset loaders\<close>

text \<open>
  The loaders work on the data frame that \<open>pd.read_csv\<close> returns; reading the file is
  outside the model. A frame is the list of its columns in file order, each a name with
  its cells. A cell is missing (\<open>NaN\<close>), an integer, or a string. Column names and
  labels are strings of 8-bit characters; \<open>lower\<close> acts on the letters A to Z, which
  is all that the keyword tests and the label lexicon (both pure ASCII) can observe.
\<close>

datatype cell = NA | IntC int | StrC string

type_synonym table = "(string \<times> cell list) list"

definition columns :: "table \<Rightarrow> string list" where
  "columns df = map fst df"

definition col_of :: "table \<Rightarrow> string \<Rightarrow> cell list" where
  "col_of df name = (case map_of df name of Some cells \<Rightarrow> cells | None \<Rightarrow> [])"

definition lower_char :: "char \<Rightarrow> char" where
  "lower_char c =
     (case map_of (zip ''ABCDEFGHIJKLMNOPQRSTUVWXYZ'' ''abcdefghijklmnopqrstuvwxyz'') c of
        Some d \<Rightarrow> d
      | None \<Rightarrow> c)"

definition lower :: "string \<Rightarrow> string" where
  "lower s = map lower_char s"

fun starts_with :: "string \<Rightarrow> string \<Rightarrow> bool" where
  "starts_with [] s = True"
| "starts_with (p # ps) [] = False"
| "starts_with (p # ps) (c # cs) = (p = c \<and> starts_with ps cs)"

text \<open>Python's \<open>sub in s\<close> on strings.\<close>

fun contains :: "string \<Rightarrow> string \<Rightarrow> bool" where
  "contains sub [] = (sub = [])"
| "contains sub (c # cs) = (starts_with sub (c # cs) \<or> contains sub cs)"

text \<open>
  All three loaders raise \<open>ValueError\<close>; the constructors tell the raise sites apart.
  \<open>NoTextOrLabelColumn\<close> carries the fixed part of the message and
  \<open>df.columns.tolist()\<close>, which the f-string prints after it.
\<close>

datatype load_error =
    NoTextOrLabelColumn string "string list"
  | MissingUrlOrLabel string
  | LabelNotInt

text \<open>Python's \<open>not x\<close> for a variable that is \<open>None\<close> or a string.\<close>

definition falsy :: "string option \<Rightarrow> bool" where
  "falsy x = (x = None \<or> x = Some [])"

text \<open>\<open>df.dropna(subset=[text_col, label_col])\<close>, as the remaining rows of the two columns.\<close>

definition dropna :: "cell list \<Rightarrow> cell list \<Rightarrow> (cell \<times> cell) list" where
  "dropna texts labels = filter (\<lambda>(t, l). t \<noteq> NA \<and> l \<noteq> NA) (zip texts labels)"

text \<open>
  \<open>astype(int)\<close>. An integer cell stays; a missing cell raises; a string cell goes
  through Python's \<open>int()\<close>: surrounding whitespace stripped, an optional sign, decimal
  digits with single underscores allowed between digits, and the value must fit 64 bits.
\<close>

definition py_space :: "char \<Rightarrow> bool" where
  "py_space c = (c \<in> set [CHR 0x09, CHR 0x0A, CHR 0x0B, CHR 0x0C, CHR 0x0D,
                           CHR 0x1C, CHR 0x1D, CHR 0x1E, CHR 0x1F, CHR 0x20,
                           CHR 0x85, CHR 0xA0])"

definition strip :: "string \<Rightarrow> string" where
  "strip s = rev (dropWhile py_space (rev (dropWhile py_space s)))"

definition digit_val :: "char \<Rightarrow> nat option" where
  "digit_val c = map_of (zip ''0123456789'' [0, 1, 2, 3, 4, 5, 6, 7, 8, 9]) c"

fun py_digits :: "nat \<Rightarrow> string \<Rightarrow> nat option" where
  "py_digits acc [] = Some acc"
| "py_digits acc [c] =
     (case digit_val c of Some v \<Rightarrow> Some (10 * acc + v) | None \<Rightarrow> None)"
| "py_digits acc (c # d # cs) =
     (if c = CHR ''_''
      then (case digit_val d of Some v \<Rightarrow> py_digits (10 * acc + v) cs | None \<Rightarrow> None)
      else (case digit_val c of Some v \<Rightarrow> py_digits (10 * acc + v) (d # cs) | None \<Rightarrow> None))"

definition py_nat :: "string \<Rightarrow> nat option" where
  "py_nat s =
     (case s of
        [] \<Rightarrow> None
      | c # cs \<Rightarrow> (case digit_val c of Some v \<Rightarrow> py_digits v cs | None \<Rightarrow> None))"

definition py_int :: "string \<Rightarrow> int option" where
  "py_int s =
     (let r = strip s;
          v = (case r of
                 [] \<Rightarrow> None
               | c # cs \<Rightarrow>
                   if c = CHR ''-'' then map_option (\<lambda>n. - int n) (py_nat cs)
                   else if c = CHR ''+'' then map_option int (py_nat cs)
                   else map_option int (py_nat r))
      in case v of
           None \<Rightarrow> None
         | Some i \<Rightarrow> if - (2 ^ 63) \<le> i \<and> i < 2 ^ 63 then Some i else None)"

fun astype_int_cell :: "cell \<Rightarrow> int option" where
  "astype_int_cell NA = None"
| "astype_int_cell (IntC i) = Some i"
| "astype_int_cell (StrC s) = py_int s"

definition astype_int :: "cell list \<Rightarrow> int list option" where
  "astype_int cells = those (map astype_int_cell cells)"

subsection \<open>\<open>load_email_dataset\<close>\<close>

definition email_text_hit :: "string \<Rightarrow> bool" where
  "email_text_hit col_lower =
     (contains ''email'' col_lower \<or> contains ''text'' col_lower \<or>
      contains ''content'' col_lower \<or> contains ''message'' col_lower)"

definition email_label_hit :: "string \<Rightarrow> bool" where
  "email_label_hit col_lower =
     (contains ''label'' col_lower \<or> contains ''class'' col_lower \<or>
      contains ''target'' col_lower)"

text \<open>
  One round of the loop \<open>for col in df.columns\<close>, on the pair
  \<open>(text_col, label_col)\<close>; a later match overwrites an earlier one.
\<close>

definition scan_step ::
  "(string \<Rightarrow> bool) \<Rightarrow> (string \<Rightarrow> bool) \<Rightarrow> string \<Rightarrow>
   string option \<times> string option \<Rightarrow> string option \<times> string option" where
  "scan_step text_hit label_hit col st =
     (let col_lower = lower col
      in (if text_hit col_lower then Some col else fst st,
          if label_hit col_lower then Some col else snd st))"

definition scan_columns ::
  "(string \<Rightarrow> bool) \<Rightarrow> (string \<Rightarrow> bool) \<Rightarrow> string list \<Rightarrow>
   string option \<times> string option" where
  "scan_columns text_hit label_hit cols =
     fold (scan_step text_hit label_hit) cols (None, None)"

text \<open>
  \<open>df[label_col] = df[label_col].astype(int)\<close> writes the cast labels back into the
  frame, so when one column was chosen for both roles, \<open>df[text_col].values\<close> returns
  the cast labels.
\<close>

definition loaded :: "string \<Rightarrow> string \<Rightarrow> (cell \<times> cell) list \<Rightarrow> int list \<Rightarrow> cell list \<times> int list" where
  "loaded text_col label_col rows ls =
     (if text_col = label_col then map IntC ls else map fst rows, ls)"

definition load_email_dataset :: "table \<Rightarrow> load_error + (cell list \<times> int list)" where
  "load_email_dataset df =
     (case scan_columns email_text_hit email_label_hit (columns df) of
        (text_col, label_col) \<Rightarrow>
          if falsy text_col \<or> falsy label_col
          then Inl (NoTextOrLabelColumn
                 ''Could not find email text and label columns. Available columns: ''
                 (columns df))
          else
            (case (text_col, label_col) of
               (Some tc, Some lc) \<Rightarrow>
                 (let rows = dropna (col_of df tc) (col_of df lc)
                  in case astype_int (map snd rows) of
                       None \<Rightarrow> Inl LabelNotInt
                     | Some ls \<Rightarrow> Inr (loaded tc lc rows ls))
             | _ \<Rightarrow> Inl (NoTextOrLabelColumn
                 ''Could not find email text and label columns. Available columns: ''
                 (columns df))))"

subsection \<open>\<open>load_sms_dataset\<close>\<close>

definition sms_text_hit :: "string \<Rightarrow> bool" where
  "sms_text_hit col_lower =
     (contains ''sms'' col_lower \<or> contains ''text'' col_lower \<or>
      contains ''message'' col_lower \<or> contains ''content'' col_lower)"

definition sms_label_hit :: "string \<Rightarrow> bool" where
  "sms_label_hit col_lower =
     (contains ''label'' col_lower \<or> contains ''class'' col_lower \<or>
      contains ''target'' col_lower \<or> contains ''spam'' col_lower)"

definition label_mapping :: "string \<Rightarrow> int option" where
  "label_mapping =
     map_of [(''ham'', 0), (''legitimate'', 0), (''safe'', 0), (''normal'', 0),
             (''spam'', 1), (''phishing'', 1), (''phish'', 1), (''malicious'', 1),
             (''smishing'', 1)]"

text \<open>
  \<open>dtype == 'object'\<close>: the column holds strings. The dtype belongs to the column
  as read, and \<open>dropna\<close> does not change it.
\<close>

definition is_object :: "cell list \<Rightarrow> bool" where
  "is_object cells = (\<exists>c \<in> set cells. case c of StrC s \<Rightarrow> True | _ \<Rightarrow> False)"

text \<open>
  \<open>.str.lower().map(label_mapping)\<close> on one cell: a string outside the mapping, or a
  cell that is no string, becomes \<open>NaN\<close> (here \<open>None\<close>), on which the following
  \<open>astype(int)\<close> raises.
\<close>

fun map_label_cell :: "cell \<Rightarrow> int option" where
  "map_label_cell (StrC s) = label_mapping (lower s)"
| "map_label_cell c = None"

definition sms_labels :: "cell list \<Rightarrow> cell list \<Rightarrow> int list option" where
  "sms_labels column kept =
     (if is_object column then those (map map_label_cell kept) else astype_int kept)"

definition load_sms_dataset :: "table \<Rightarrow> load_error + (cell list \<times> int list)" where
  "load_sms_dataset df =
     (case scan_columns sms_text_hit sms_label_hit (columns df) of
        (text_col, label_col) \<Rightarrow>
          if falsy text_col \<or> falsy label_col
          then Inl (NoTextOrLabelColumn
                 ''Could not find SMS text and label columns. Available columns: ''
                 (columns df))
          else
            (case (text_col, label_col) of
               (Some tc, Some lc) \<Rightarrow>
                 (let rows = dropna (col_of df tc) (col_of df lc)
                  in case sms_labels (col_of df lc) (map snd rows) of
                       None \<Rightarrow> Inl LabelNotInt
                     | Some ls \<Rightarrow> Inr (loaded tc lc rows ls))
             | _ \<Rightarrow> Inl (NoTextOrLabelColumn
                 ''Could not find SMS text and label columns. Available columns: ''
                 (columns df))))"

subsection \<open>\<open>load_url_dataset\<close>\<close>

definition load_url_dataset :: "table \<Rightarrow> load_error + (cell list \<times> int list)" where
  "load_url_dataset df =
     (if ''url'' \<notin> set (columns df) \<or> ''label'' \<notin> set (columns df)
      then Inl (MissingUrlOrLabel ''Dataset must have 'url' and 'label' columns'')
      else
        (let rows = dropna (col_of df ''url'') (col_of df ''label'')
         in case astype_int (map snd rows) of
              None \<Rightarrow> Inl LabelNotInt
            | Some ls \<Rightarrow> Inr (map fst rows, ls)))"

section \<open>Word-level encoding\<close>

text \<open>
  \<open>preprocess_sms\<close> and \<open>preprocess_emails_for_lstm\<close> construct a
  \<open>keras.layers.TextVectorization\<close> with \<open>max_tokens=vocab_size\<close>,
  \<open>output_sequence_length=max_length\<close> and \<open>output_mode='int'\<close>, adapt it to the
  training texts and call it on them. The layer is a library class; it is modelled
  after its documentation. In \<open>int\<close> mode index 0 belongs to the mask token (the empty
  string, used for padding) and index 1 to the out-of-vocabulary token \<open>[UNK]\<close>; the
  learned tokens follow from index 2, most frequent first, ties in descending token
  order (the library sorts with \<open>np.lexsort((tokens, counts))[::-1]\<close>), cut so that the
  whole vocabulary has at most \<open>max_tokens\<close> entries. The constructor rejects
  \<open>max_tokens \<le> 1\<close>, and \<open>adapt\<close> raises when it is left with no token to learn:
  when \<open>max_tokens\<close> is 2, and when the training texts hold no token besides the two
  reserved ones.

  What turns a text into tokens (the cleaning of \<open>clean_sms_text\<close> for messages, the
  layer's own standardisation for prose, then splitting on whitespace) is the
  parameter \<open>tok\<close>.
\<close>

definition mask_token :: string where
  "mask_token = []"

definition oov_token :: string where
  "oov_token = ''[UNK]''"

record text_vectorization =
  max_tokens :: int
  output_sequence_length :: nat
  learned :: "string list"

datatype vec_error = MaxTokensTooSmall | NoTokenLearned

definition TextVectorization :: "int \<Rightarrow> nat \<Rightarrow> vec_error + text_vectorization" where
  "TextVectorization vocab_size max_length =
     (if vocab_size \<le> 1 then Inl MaxTokensTooSmall
      else Inr \<lparr>max_tokens = vocab_size, output_sequence_length = max_length,
                 learned = []\<rparr>)"

definition token_counts :: "string list \<Rightarrow> (string \<times> nat) list" where
  "token_counts toks = map (\<lambda>t. (t, count_list toks t)) (remdups toks)"

definition by_frequency :: "(string \<times> nat) list \<Rightarrow> (string \<times> nat) list" where
  "by_frequency tc = rev (sort_key (\<lambda>(t, c). (c, t)) tc)"

text \<open>The tokens that \<open>adapt\<close> learns, in the order of their ids.\<close>

definition fit_tokens :: "int \<Rightarrow> string list list \<Rightarrow> string list" where
  "fit_tokens cap docs =
     take (nat (cap - 2))
       (map fst (by_frequency
          (filter (\<lambda>(t, c). t \<noteq> mask_token \<and> t \<noteq> oov_token)
             (token_counts (concat docs)))))"

definition adapt ::
  "text_vectorization \<Rightarrow> string list list \<Rightarrow> vec_error + text_vectorization" where
  "adapt layer docs =
     (let tokens = fit_tokens (max_tokens layer) docs
      in if tokens = [] then Inl NoTokenLearned
         else Inr (layer\<lparr>learned := tokens\<rparr>))"

definition get_vocabulary :: "text_vectorization \<Rightarrow> string list" where
  "get_vocabulary layer = mask_token # oov_token # learned layer"

fun index_of :: "'a \<Rightarrow> 'a list \<Rightarrow> nat option" where
  "index_of x [] = None"
| "index_of x (y # ys) = (if x = y then Some 0 else map_option Suc (index_of x ys))"

definition lookup_token :: "text_vectorization \<Rightarrow> string \<Rightarrow> nat" where
  "lookup_token layer t =
     (if t = mask_token then 0
      else case index_of t (learned layer) of Some i \<Rightarrow> i + 2 | None \<Rightarrow> 1)"

text \<open>Calling the layer on one tokenised text: ids, cut or padded with 0 to the length.\<close>

definition vectorize :: "text_vectorization \<Rightarrow> string list \<Rightarrow> nat list" where
  "vectorize layer toks =
     (let ids = map (lookup_token layer) (take (output_sequence_length layer) toks)
      in ids @ replicate (output_sequence_length layer - length ids) 0)"

definition SMS_VOCAB_SIZE :: int where
  "SMS_VOCAB_SIZE = 5000"

definition MAX_SMS_LENGTH :: nat where
  "MAX_SMS_LENGTH = 160"

definition MAX_EMAIL_LENGTH :: nat where
  "MAX_EMAIL_LENGTH = 512"

definition preprocess_sms ::
  "('m \<Rightarrow> string list) \<Rightarrow> 'm list \<Rightarrow> int \<Rightarrow> nat \<Rightarrow>
   vec_error + (nat list list \<times> text_vectorization)" where
  "preprocess_sms tok messages vocab_size max_length =
     (let cleaned_messages = map tok messages
      in case TextVectorization vocab_size max_length of
           Inl e \<Rightarrow> Inl e
         | Inr layer \<Rightarrow>
             (case adapt layer cleaned_messages of
                Inl e \<Rightarrow> Inl e
              | Inr vectorize_layer \<Rightarrow>
                  Inr (map (vectorize vectorize_layer) cleaned_messages, vectorize_layer)))"

definition preprocess_emails_for_lstm ::
  "('m \<Rightarrow> string list) \<Rightarrow> 'm list \<Rightarrow> int \<Rightarrow> nat \<Rightarrow>
   vec_error + (nat list list \<times> text_vectorization)" where
  "preprocess_emails_for_lstm tok emails vocab_size max_length =
     (case TextVectorization vocab_size max_length of
        Inl e \<Rightarrow> Inl e
      | Inr layer \<Rightarrow>
          (case adapt layer (map tok emails) of
             Inl e \<Rightarrow> Inl e
           | Inr vectorize_layer \<Rightarrow>
               Inr (map (vectorize vectorize_layer) (map tok emails), vectorize_layer)))"

section \<open>Class weights, prediction and the confusion matrix\<close>

text \<open>
  Step 5 of \<open>train_sms_model\<close>. The counts are counts of labels equal to 0 and to 1;
  the quotients are the exact ones (Python's true division of the two counts, which
  returns the nearest double).
\<close>

definition class_weights :: "int list \<Rightarrow> (int \<times> real) list option" where
  "class_weights y_train =
     (let class_0_count = length (filter (\<lambda>y. y = 0) y_train);
          class_1_count = length (filter (\<lambda>y. y = 1) y_train)
      in if class_0_count > 0 \<and> class_1_count > 0
         then (let total = class_0_count + class_1_count
               in Some [(0, real total / real (2 * class_0_count)),
                        (1, real total / real (2 * class_1_count))])
         else None)"

text \<open>
  \<open>(y_pred_proba > 0.5).astype(int).flatten()\<close>, on probabilities as real numbers
  (the comparison of a finite float with 0.5 is exact).
\<close>

definition predict_class :: "real \<Rightarrow> int" where
  "predict_class p = (if p > 0.5 then 1 else 0)"

definition y_pred_of :: "real list \<Rightarrow> int list" where
  "y_pred_of y_pred_proba = map predict_class y_pred_proba"

text \<open>
  \<open>confusion_matrix(y_test, y_pred)\<close> of scikit-learn, called without \<open>labels\<close>: the
  labels are the sorted distinct values that occur in either argument, row \<open>i\<close> and
  column \<open>j\<close> count the examples whose actual class is the \<open>i\<close>-th label and whose
  predicted class is the \<open>j\<close>-th. Arguments of different lengths are rejected.
\<close>

definition unique_labels :: "int list \<Rightarrow> int list \<Rightarrow> int list" where
  "unique_labels y_true y_pred = sort (remdups (y_true @ y_pred))"

definition cm_count :: "int list \<Rightarrow> int list \<Rightarrow> int \<Rightarrow> int \<Rightarrow> nat" where
  "cm_count y_true y_pred a b =
     length (filter (\<lambda>(t, p). t = a \<and> p = b) (zip y_true y_pred))"

definition confusion_matrix :: "int list \<Rightarrow> int list \<Rightarrow> nat list list option" where
  "confusion_matrix y_true y_pred =
     (if length y_true \<noteq> length y_pred then None
      else Some (map (\<lambda>a. map (\<lambda>b. cm_count y_true y_pred a b)
                               (unique_labels y_true y_pred))
                     (unique_labels y_true y_pred)))"

definition evaluate_cm :: "int list \<Rightarrow> real list \<Rightarrow> nat list list option" where
  "evaluate_cm y_test y_pred_proba = confusion_matrix y_test (y_pred_of y_pred_proba)"

text \<open>
  Right after computing \<open>cm\<close>, every script prints \<open>cm[0][0]\<close>, \<open>cm[0][1]\<close>,
  \<open>cm[1][0]\<close> and \<open>cm[1][1]\<close>, in this order. An index beyond the matrix raises
  \<open>IndexError\<close>, which ends the run.
\<close>

datatype py_error = NameError string | IndexError | ValueError

definition cm_entry :: "nat list list \<Rightarrow> nat \<Rightarrow> nat \<Rightarrow> py_error + nat" where
  "cm_entry cm i j =
     (if i < length cm \<and> j < length (cm ! i) then Inr (cm ! i ! j) else Inl IndexError)"

definition print_confusion_matrix ::
  "nat list list \<Rightarrow> py_error + (nat \<times> nat \<times> nat \<times> nat)" where
  "print_confusion_matrix cm =
     (case cm_entry cm 0 0 of Inl e \<Rightarrow> Inl e | Inr tn \<Rightarrow>
      case cm_entry cm 0 1 of Inl e \<Rightarrow> Inl e | Inr fp \<Rightarrow>
      case cm_entry cm 1 0 of Inl e \<Rightarrow> Inl e | Inr fn \<Rightarrow>
      case cm_entry cm 1 1 of Inl e \<Rightarrow> Inl e | Inr tp \<Rightarrow> Inr (tn, fp, fn, tp))"

text \<open>Steps 9 to 11 of \<open>train_sms_model\<close> (8 to 10 of \<open>train_url_model\<close>) together.\<close>

definition report_confusion_matrix ::
  "int list \<Rightarrow> real list \<Rightarrow> py_error + (nat \<times> nat \<times> nat \<times> nat)" where
  "report_confusion_matrix y_test y_pred_proba =
     (case evaluate_cm y_test y_pred_proba of
        None \<Rightarrow> Inl ValueError
      | Some cm \<Rightarrow> print_confusion_matrix cm)"

section \<open>Model builders\<close>

text \<open>
  What each builder passes to the layer constructors and to \<open>model.compile\<close>; the
  layers themselves belong to the framework. The metric objects \<open>Precision()\<close> and
  \<open>Recall()\<close> are written by name.

  A builder resolves the names it uses in the namespace of its module when it is
  called. The short-message and URL scripts import \<open>layers\<close> and every other name
  their builders use. The prose script binds the names listed in
  \<open>email_module_names\<close> (its imports, constants and functions), and \<open>layers\<close> is
  not among them: \<open>build_simplified_text_model\<close>, which first uses \<open>layers\<close> to
  build the input layer, takes the namespace as its argument and raises
  \<open>NameError\<close> where the name is unbound.
\<close>

datatype layer =
    Input nat
  | Embedding nat nat nat bool string
  | SpatialDropout1D real string
  | BidirectionalLSTM nat bool real real string
  | Conv1D nat nat string string string
  | MaxPooling1D nat string
  | GlobalMaxPooling1D string
  | Dropout real string
  | Dense nat string string
  | Pretrained string nat









section \<open>Metadata\<close>

text \<open>
  The dictionary \<open>metadata\<close> that each \<open>train_*_model\<close> builds and dumps as
  \<open>metadata.json\<close>, as a function of the variables in scope where it is built: the
  five measured numbers, the loaded texts and labels and the two sides of the split.
  A dictionary is the list of its items in source order. The keys 0 and 1 of
  \<open>class_weights\<close> are written as \<open>json.dump\<close> writes them.
\<close>

datatype json = JNull | JInt int | JFloat real | JStr string | JObj "(string \<times> json) list"

fun jget :: "string \<Rightarrow> json \<Rightarrow> json option" where
  "jget k (JObj items) = map_of items k"
| "jget k j = None"

definition count_eq :: "int \<Rightarrow> int list \<Rightarrow> int" where
  "count_eq v labels = int (length (filter (\<lambda>y. y = v) labels))"

definition metrics_json :: "real \<Rightarrow> real \<Rightarrow> real \<Rightarrow> real \<Rightarrow> real \<Rightarrow> json" where
  "metrics_json test_acc precision recall f1 test_loss =
     JObj [(''accuracy'', JFloat test_acc), (''precision'', JFloat precision),
           (''recall'', JFloat recall), (''f1_score'', JFloat f1),
           (''loss'', JFloat test_loss)]"

definition class_weights_json :: "(int \<times> real) list option \<Rightarrow> json" where
  "class_weights_json cw =
     (case cw of
        None \<Rightarrow> JNull
      | Some ws \<Rightarrow> JObj (map (\<lambda>(k, w). (if k = 0 then ''0'' else ''1'', JFloat w)) ws))"

definition sms_metadata ::
  "real \<Rightarrow> real \<Rightarrow> real \<Rightarrow> real \<Rightarrow> real \<Rightarrow> (int \<times> real) list option \<Rightarrow>
   cell list \<Rightarrow> cell list \<Rightarrow> cell list \<Rightarrow> int list \<Rightarrow> json" where
  "sms_metadata test_acc precision recall f1 test_loss cw
       messages messages_train messages_test labels =
     JObj [(''model_type'', JStr ''sms_bilstm''),
           (''version'', JStr ''1.0''),
           (''max_sms_length'', JInt (int MAX_SMS_LENGTH)),
           (''vocab_size'', JInt SMS_VOCAB_SIZE),
           (''embedding_dim'', JInt 100),
           (''metrics'', metrics_json test_acc precision recall f1 test_loss),
           (''training_params'',
              JObj [(''epochs'', JInt 15), (''batch_size'', JInt 32),
                    (''validation_split'', JFloat 0.2), (''test_size'', JFloat 0.15),
                    (''class_weights'', class_weights_json cw)]),
           (''dataset_info'',
              JObj [(''total_samples'', JInt (int (length messages))),
                    (''training_samples'', JInt (int (length messages_train))),
                    (''test_samples'', JInt (int (length messages_test))),
                    (''legitimate_count'', JInt (count_eq 0 labels)),
                    (''phishing_count'', JInt (count_eq 1 labels))])]"

definition email_metadata ::
  "bool \<Rightarrow> real \<Rightarrow> real \<Rightarrow> real \<Rightarrow> real \<Rightarrow> real \<Rightarrow>
   cell list \<Rightarrow> cell list \<Rightarrow> cell list \<Rightarrow> int list \<Rightarrow> json" where
  "email_metadata use_simplified test_acc precision recall f1 test_loss
       emails emails_train emails_test labels =
     JObj [(''model_type'', JStr (if use_simplified then ''email_lstm'' else ''email_distilbert'')),
           (''version'', JStr ''1.0''),
           (''max_length'', JInt (int MAX_EMAIL_LENGTH)),
           (''vocab_size'', JInt (if use_simplified then 10000 else 30522)),
           (''metrics'', metrics_json test_acc precision recall f1 test_loss),
           (''training_params'',
              JObj [(''epochs'', JInt 5), (''batch_size'', JInt 16),
                    (''validation_split'', JFloat 0.2), (''test_size'', JFloat 0.15)]),
           (''dataset_info'',
              JObj [(''total_samples'', JInt (int (length emails))),
                    (''training_samples'', JInt (int (length emails_train))),
                    (''test_samples'', JInt (int (length emails_test))),
                    (''legitimate_count'', JInt (count_eq 0 labels)),
                    (''phishing_count'', JInt (count_eq 1 labels))])]"

definition url_metadata ::
  "real \<Rightarrow> real \<Rightarrow> real \<Rightarrow> real \<Rightarrow> real \<Rightarrow>
   cell list \<Rightarrow> nat list list \<Rightarrow> nat list list \<Rightarrow> int list \<Rightarrow> json" where
  "url_metadata test_acc precision recall f1 test_loss urls X_train X_test labels =
     JObj [(''model_type'', JStr ''url_character_cnn''),
           (''version'', JStr ''1.0''),
           (''max_url_length'', JInt (int MAX_URL_LENGTH)),
           (''vocab_size'', JInt (int URL_VOCAB_SIZE)),
           (''embedding_dim'', JInt 64),
           (''metrics'', metrics_json test_acc precision recall f1 test_loss),
           (''training_params'',
              JObj [(''epochs'', JInt 20), (''batch_size'', JInt 64),
                    (''validation_split'', JFloat 0.2), (''test_size'', JFloat 0.15)]),
           (''dataset_info'',
              JObj [(''total_samples'', JInt (int (length urls))),
                    (''training_samples'', JInt (int (length X_train))),
                    (''test_samples'', JInt (int (length X_test))),
                    (''safe_count'', JInt (count_eq 0 labels)),
                    (''phishing_count'', JInt (count_eq 1 labels))])]"

text \<open>Reading the metadata back: the \<open>dataset_info\<close> record and one of its fields.\<close>

definition dataset_info :: "json \<Rightarrow> json" where
  "dataset_info md = (case jget ''dataset_info'' md of Some d \<Rightarrow> d | None \<Rightarrow> JNull)"

definition info_field :: "string \<Rightarrow> json \<Rightarrow> json option" where
  "info_field k md = jget k (dataset_info md)"

section \<open>Character-level encoding: results\<close>

lemma encode_url_length: "length (encode_url L url) = L"
  by (simp add: encode_url_def Let_def)

lemma encode_url_nth:
  assumes "j < L"
  shows "encode_url L url ! j = (if j < length url then min (url ! j) 127 else 0)"
  using assms
  by (auto simp add: encode_url_def Let_def URL_VOCAB_SIZE_def nth_append)

text \<open>
  C1. For every list of URL strings, \<open>preprocess_urls\<close> with the script's length
  \<open>MAX_URL_LENGTH = 200\<close> returns one row per URL; every row has exactly 200 entries,
  whatever the URL's length; entry \<open>j\<close> is \<open>min(ord(c), 127)\<close> for the \<open>j\<close>-th
  character \<open>c\<close> of the URL while the URL lasts (truncation to 200 characters), and 0
  after its end (padding on the right).
\<close>

theorem C1_char_encoder:
  "MAX_URL_LENGTH = 200 \<and>
   length (preprocess_urls urls MAX_URL_LENGTH) = length urls \<and>
   (\<forall>i < length urls.
      length (preprocess_urls urls MAX_URL_LENGTH ! i) = 200 \<and>
      (\<forall>j < 200.
         preprocess_urls urls MAX_URL_LENGTH ! i ! j =
           (if j < length (urls ! i) then min (urls ! i ! j) 127 else 0)))"
  by (simp add: preprocess_urls_def MAX_URL_LENGTH_def encode_url_length encode_url_nth)

theorem C1_char_encoder_witness:
  "preprocess_urls [[104, 8364, 112], []] MAX_URL_LENGTH ! 0 ! 1 = 127 \<and>
   preprocess_urls [[104, 8364, 112], []] MAX_URL_LENGTH ! 0 ! 2 = 112 \<and>
   preprocess_urls [[104, 8364, 112], []] MAX_URL_LENGTH ! 0 ! 3 = 0 \<and>
   length (preprocess_urls [[104, 8364, 112], []] MAX_URL_LENGTH ! 1) = 200"
  using C1_char_encoder [of "[[104, 8364, 112], []]"]
  by (simp add: nth_Cons')

section \<open>Prediction threshold\<close>

text \<open>
  C3, as stated, at the boundary: a predicted probability of exactly 0.5 is compared
  with \<open>> 0.5\<close> and lands in class 0, not in class 1.
\<close>

theorem C3_threshold_counterexample:
  "predict_class 0.5 = 0 \<and> predict_class 0.5 \<noteq> 1"
  by (simp add: predict_class_def)

text \<open>
  C3, amended. The evaluator assigns class 1 exactly when the predicted probability is
  strictly greater than 0.5, and class 0 otherwise; a probability equal to 0.5 gives
  class 0. This holds for each example of the test partition, and there is one
  prediction per probability.
\<close>

theorem C3_threshold_strict:
  "(predict_class p = 1) = (p > 0.5) \<and>
   (predict_class p = 0) = (p \<le> 0.5) \<and>
   length (y_pred_of ps) = length ps \<and>
   (\<forall>i < length ps.
      (y_pred_of ps ! i = 1) = (ps ! i > 0.5) \<and>
      (y_pred_of ps ! i = 0) = (ps ! i \<le> 0.5))"
  by (auto simp add: predict_class_def y_pred_of_def)

theorem C3_threshold_strict_witness:
  "y_pred_of [0.5, 0.51, 0.49] ! 0 = 0 \<and> y_pred_of [0.5, 0.51, 0.49] ! 1 = 1 \<and>
   y_pred_of [0.5, 0.51, 0.49] ! 2 = 0"
  using C3_threshold_strict [of _ "[0.5, 0.51, 0.49]"]
  by (simp add: nth_Cons')

section \<open>Class weights\<close>

text \<open>
  C4. When the training labels hold at least one 0 and at least one 1, the weight of
  class \<open>c\<close> is the total of the two counts divided by twice the count of \<open>c\<close>; for
  80 labels 0 and 20 labels 1 the weights are 0.625 for class 0 and 2.5 for class 1.
\<close>

theorem C4_class_weights:
  "(0 < length (filter (\<lambda>y. y = 0) y_train) \<and> 0 < length (filter (\<lambda>y. y = 1) y_train) \<longrightarrow>
     class_weights y_train =
       Some [(0, real (length (filter (\<lambda>y. y = 0) y_train) +
                       length (filter (\<lambda>y. y = 1) y_train))
                   / (2 * real (length (filter (\<lambda>y. y = 0) y_train)))),
             (1, real (length (filter (\<lambda>y. y = 0) y_train) +
                       length (filter (\<lambda>y. y = 1) y_train))
                   / (2 * real (length (filter (\<lambda>y. y = 1) y_train))))]) \<and>
   (length (filter (\<lambda>y. y = 0) y_train) = 80 \<and>
    length (filter (\<lambda>y. y = 1) y_train) = 20 \<longrightarrow>
     class_weights y_train = Some [(0, 0.625), (1, 2.5)])"
  by (simp add: class_weights_def Let_def)

theorem C4_class_weights_witness:
  "class_weights (replicate 80 0 @ replicate 20 1) = Some [(0, 0.625), (1, 2.5)]"
  using C4_class_weights [of "replicate 80 0 @ replicate 20 1"]
  by simp

section \<open>Learning rates\<close>




section \<open>Confusion matrix\<close>

lemma unique_labels_binary:
  assumes "set (y_true @ y_pred) = {0, 1}"
  shows "unique_labels y_true y_pred = [0, 1]"
proof -
  have "unique_labels y_true y_pred = sorted_list_of_set (set (y_true @ y_pred))"
    by (simp only: unique_labels_def sorted_list_of_set_sort_remdups)
  also have "\<dots> = sorted_list_of_set {0, 1 :: int}"
    using assms by simp
  also have "\<dots> = [0, 1]"
    by simp
  finally show ?thesis .
qed

lemma row_cells:
  assumes "\<forall>z \<in> set zs. snd z = 0 \<or> snd z = (1::int)"
  shows "length (filter (\<lambda>z. fst z = a \<and> snd z = 0) zs) +
         length (filter (\<lambda>z. fst z = a \<and> snd z = 1) zs) =
         length (filter (\<lambda>t. t = (a::int)) (map fst zs))"
  using assms
proof (induction zs)
  case Nil
  then show ?case by simp
next
  case (Cons z zs)
  then have ih: "length (filter (\<lambda>z. fst z = a \<and> snd z = 0) zs) +
         length (filter (\<lambda>z. fst z = a \<and> snd z = 1) zs) =
         length (filter (\<lambda>t. t = a) (map fst zs))"
    by simp
  from Cons.prems have "snd z = 0 \<or> snd z = 1" by simp
  then show ?case using ih by (cases "fst z = a") auto
qed

lemma two_rows:
  assumes "\<forall>t \<in> set ts. t = 0 \<or> t = (1::int)"
  shows "length (filter (\<lambda>t. t = 0) ts) + length (filter (\<lambda>t. t = 1) ts) = length ts"
  using assms by (induction ts) auto

lemma y_pred_of_binary: "p \<in> set (y_pred_of ps) \<Longrightarrow> p = 0 \<or> p = 1"
  by (auto simp add: y_pred_of_def predict_class_def)

lemma cm_count_alt:
  "cm_count y_true y_pred a b =
     length (filter (\<lambda>z. fst z = a \<and> snd z = b) (zip y_true y_pred))"
  by (simp add: cm_count_def case_prod_unfold)

text \<open>
  Where both classes occur among the test labels and the predicted classes, the matrix
  is 2 by 2, rows by actual class and columns by predicted class, its entries sum to
  the number of test examples, its second row sums to the number of labels 1, and the
  four reads of the print statements succeed.
\<close>

lemma confusion_matrix_two_classes:
  assumes len: "length y_test = length y_pred_proba"
    and both: "set (y_test @ y_pred_of y_pred_proba) = {0, 1}"
  shows "evaluate_cm y_test y_pred_proba =
           Some [[cm_count y_test (y_pred_of y_pred_proba) 0 0,
                  cm_count y_test (y_pred_of y_pred_proba) 0 1],
                 [cm_count y_test (y_pred_of y_pred_proba) 1 0,
                  cm_count y_test (y_pred_of y_pred_proba) 1 1]] \<and>
         cm_count y_test (y_pred_of y_pred_proba) 0 0 +
         cm_count y_test (y_pred_of y_pred_proba) 0 1 +
         cm_count y_test (y_pred_of y_pred_proba) 1 0 +
         cm_count y_test (y_pred_of y_pred_proba) 1 1 = length y_test \<and>
         cm_count y_test (y_pred_of y_pred_proba) 1 0 +
         cm_count y_test (y_pred_of y_pred_proba) 1 1 =
           length (filter (\<lambda>y. y = 1) y_test)"
proof -
  let ?yp = "y_pred_of y_pred_proba"
  let ?zs = "zip y_test ?yp"
  have len': "length y_test = length ?yp"
    using len by (simp add: y_pred_of_def)
  have cm: "evaluate_cm y_test y_pred_proba =
           Some [[cm_count y_test ?yp 0 0, cm_count y_test ?yp 0 1],
                 [cm_count y_test ?yp 1 0, cm_count y_test ?yp 1 1]]"
    using len' by (simp add: evaluate_cm_def confusion_matrix_def unique_labels_binary [OF both])
  have t01: "\<forall>t \<in> set y_test. t = 0 \<or> t = 1"
    using both by auto
  have cells: "\<forall>z \<in> set ?zs. snd z = 0 \<or> snd z = 1"
  proof
    fix z assume "z \<in> set ?zs"
    then have "snd z \<in> set ?yp"
      using set_zip_rightD [of "fst z" "snd z" y_test ?yp] by simp
    then show "snd z = 0 \<or> snd z = 1"
      by (rule y_pred_of_binary)
  qed
  have fst_zip: "map fst ?zs = y_test"
    using len' by simp
  have row: "cm_count y_test ?yp a 0 + cm_count y_test ?yp a 1 =
           length (filter (\<lambda>y. y = a) y_test)" for a
    using row_cells [OF cells, of a] by (simp only: cm_count_alt fst_zip)
  have total: "cm_count y_test ?yp 0 0 + cm_count y_test ?yp 0 1 +
         cm_count y_test ?yp 1 0 + cm_count y_test ?yp 1 1 = length y_test"
    using row [of 0] row [of 1] two_rows [OF t01] by simp
  show ?thesis using cm total row [of 1] by simp
qed

lemma print_two_by_two: "print_confusion_matrix [[a, b], [c, d]] = Inr (a, b, c, d)"
  by (simp add: print_confusion_matrix_def cm_entry_def)

text \<open>
  C9. Every evaluation should yield a 2 by 2 matrix whose entries sum to the number of
  test examples and whose second row is FN, TP. On a test partition that holds class 0
  only and is predicted as class 0 throughout, \<open>confusion_matrix\<close>, called without
  \<open>labels=[0, 1]\<close>, returns the 1 by 1 matrix \<open>[[2]]\<close>, and the print statements,
  which read it as 2 by 2, raise \<open>IndexError\<close> at \<open>cm[0][1]\<close>: the evaluation ends
  without a 2 by 2 matrix.
\<close>

theorem C9_one_class_index_error:
  "evaluate_cm [0, 0] [0.1, 0.2] = Some [[2]] \<and>
   cm_entry [[2]] 0 1 = Inl IndexError \<and>
   report_confusion_matrix [0, 0] [0.1, 0.2] = Inl IndexError"
  by (simp add: report_confusion_matrix_def print_confusion_matrix_def cm_entry_def
      evaluate_cm_def confusion_matrix_def y_pred_of_def predict_class_def
      unique_labels_def cm_count_def)

section \<open>Column inference\<close>

lemma find_snoc:
  "find P (xs @ [x]) =
     (case find P xs of Some y \<Rightarrow> Some y | None \<Rightarrow> if P x then Some x else None)"
  by (induction xs) auto

lemma scan_step_fst:
  "fst (scan_step th lh c st) = (if th (lower c) then Some c else fst st)"
  by (simp add: scan_step_def Let_def)

lemma scan_step_snd:
  "snd (scan_step th lh c st) = (if lh (lower c) then Some c else snd st)"
  by (simp add: scan_step_def Let_def)

lemma scan_fold:
  "fold (scan_step th lh) cols st =
     (case find (\<lambda>c. th (lower c)) (rev cols) of Some c \<Rightarrow> Some c | None \<Rightarrow> fst st,
      case find (\<lambda>c. lh (lower c)) (rev cols) of Some c \<Rightarrow> Some c | None \<Rightarrow> snd st)"
proof (induction cols arbitrary: st)
  case Nil
  then show ?case by simp
next
  case (Cons c cols)
  have "fold (scan_step th lh) (c # cols) st = fold (scan_step th lh) cols (scan_step th lh c st)"
    by simp
  also have "\<dots> =
     (case find (\<lambda>c. th (lower c)) (rev cols) of Some c \<Rightarrow> Some c
        | None \<Rightarrow> fst (scan_step th lh c st),
      case find (\<lambda>c. lh (lower c)) (rev cols) of Some c \<Rightarrow> Some c
        | None \<Rightarrow> snd (scan_step th lh c st))"
    by (rule Cons.IH)
  finally show ?case
    by (simp add: find_snoc scan_step_fst scan_step_snd split: option.splits)
qed

lemma scan_columns_last_match:
  "scan_columns th lh cols =
     (find (\<lambda>c. th (lower c)) (rev cols), find (\<lambda>c. lh (lower c)) (rev cols))"
  by (simp add: scan_columns_def scan_fold split: option.splits)

lemma find_hit: "find P xs = Some x \<Longrightarrow> P x \<and> x \<in> set xs"
  by (induction xs) (auto split: if_splits)

lemma find_miss: "(find P xs = None) = (\<not> (\<exists>x \<in> set xs. P x))"
  by (induction xs) auto

lemma hits_nonempty:
  "\<not> email_text_hit (lower [])" "\<not> email_label_hit (lower [])"
  "\<not> sms_text_hit (lower [])" "\<not> sms_label_hit (lower [])"
  by (simp_all add: email_text_hit_def email_label_hit_def sms_text_hit_def sms_label_hit_def
      lower_def)

lemma scan_some_nonempty:
  assumes "scan_columns th lh cols = (Some tc, Some lc)"
    and "\<not> th (lower [])" and "\<not> lh (lower [])"
  shows "\<not> falsy (Some tc) \<and> \<not> falsy (Some lc)"
proof -
  have "th (lower tc)" "lh (lower lc)"
    using assms(1) by (auto simp add: scan_columns_last_match dest: find_hit)
  then show ?thesis
    using assms(2,3) by (auto simp add: falsy_def)
qed

lemma load_email_found:
  assumes "scan_columns email_text_hit email_label_hit (columns df) = (Some tc, Some lc)"
  shows "load_email_dataset df =
           (case astype_int (map snd (dropna (col_of df tc) (col_of df lc))) of
              None \<Rightarrow> Inl LabelNotInt
            | Some ls \<Rightarrow> Inr (loaded tc lc (dropna (col_of df tc) (col_of df lc)) ls))"
  using scan_some_nonempty [OF assms hits_nonempty(1,2)]
  by (simp add: load_email_dataset_def assms Let_def)

lemma load_sms_found:
  assumes "scan_columns sms_text_hit sms_label_hit (columns df) = (Some tc, Some lc)"
  shows "load_sms_dataset df =
           (case sms_labels (col_of df lc) (map snd (dropna (col_of df tc) (col_of df lc))) of
              None \<Rightarrow> Inl LabelNotInt
            | Some ls \<Rightarrow> Inr (loaded tc lc (dropna (col_of df tc) (col_of df lc)) ls))"
  using scan_some_nonempty [OF assms hits_nonempty(3,4)]
  by (simp add: load_sms_dataset_def assms Let_def)

lemma load_email_missing:
  assumes "fst (scan_columns email_text_hit email_label_hit (columns df)) = None \<or>
           snd (scan_columns email_text_hit email_label_hit (columns df)) = None"
  shows "load_email_dataset df =
           Inl (NoTextOrLabelColumn
                 ''Could not find email text and label columns. Available columns: ''
                 (columns df))"
  using assms
  by (cases "scan_columns email_text_hit email_label_hit (columns df)")
     (auto simp add: load_email_dataset_def falsy_def)

lemma load_sms_missing:
  assumes "fst (scan_columns sms_text_hit sms_label_hit (columns df)) = None \<or>
           snd (scan_columns sms_text_hit sms_label_hit (columns df)) = None"
  shows "load_sms_dataset df =
           Inl (NoTextOrLabelColumn
                 ''Could not find SMS text and label columns. Available columns: ''
                 (columns df))"
  using assms
  by (cases "scan_columns sms_text_hit sms_label_hit (columns df)")
     (auto simp add: load_sms_dataset_def falsy_def)

text \<open>
  C7. For every table in which no column name matches the loader's text keywords, or
  none matches its label keywords, the prose loader and the short-message loader fail
  with the error that carries the list of the table's column names; for a table with
  the columns \<open>foo\<close> and \<open>bar\<close> the error lists \<open>foo\<close>, \<open>bar\<close>.
\<close>

theorem C7_missing_columns:
  "(\<not> (\<exists>c \<in> set (columns df). email_text_hit (lower c)) \<or>
    \<not> (\<exists>c \<in> set (columns df). email_label_hit (lower c)) \<longrightarrow>
      load_email_dataset df =
        Inl (NoTextOrLabelColumn
              ''Could not find email text and label columns. Available columns: ''
              (columns df))) \<and>
   (\<not> (\<exists>c \<in> set (columns df). sms_text_hit (lower c)) \<or>
    \<not> (\<exists>c \<in> set (columns df). sms_label_hit (lower c)) \<longrightarrow>
      load_sms_dataset df =
        Inl (NoTextOrLabelColumn
              ''Could not find SMS text and label columns. Available columns: ''
              (columns df)))"
proof (intro conjI impI)
  assume "\<not> (\<exists>c \<in> set (columns df). email_text_hit (lower c)) \<or>
    \<not> (\<exists>c \<in> set (columns df). email_label_hit (lower c))"
  then have "fst (scan_columns email_text_hit email_label_hit (columns df)) = None \<or>
           snd (scan_columns email_text_hit email_label_hit (columns df)) = None"
    by (simp add: scan_columns_last_match find_miss)
  then show "load_email_dataset df =
        Inl (NoTextOrLabelColumn
              ''Could not find email text and label columns. Available columns: ''
              (columns df))"
    by (rule load_email_missing)
next
  assume "\<not> (\<exists>c \<in> set (columns df). sms_text_hit (lower c)) \<or>
    \<not> (\<exists>c \<in> set (columns df). sms_label_hit (lower c))"
  then have "fst (scan_columns sms_text_hit sms_label_hit (columns df)) = None \<or>
           snd (scan_columns sms_text_hit sms_label_hit (columns df)) = None"
    by (simp add: scan_columns_last_match find_miss)
  then show "load_sms_dataset df =
        Inl (NoTextOrLabelColumn
              ''Could not find SMS text and label columns. Available columns: ''
              (columns df))"
    by (rule load_sms_missing)
qed

theorem C7_missing_columns_witness:
  "load_email_dataset [(''foo'', [StrC ''hello'']), (''bar'', [IntC 1])] =
     Inl (NoTextOrLabelColumn
           ''Could not find email text and label columns. Available columns: ''
           [''foo'', ''bar'']) \<and>
   load_sms_dataset [(''foo'', [StrC ''hello'']), (''bar'', [IntC 1])] =
     Inl (NoTextOrLabelColumn
           ''Could not find SMS text and label columns. Available columns: ''
           [''foo'', ''bar''])"
proof -
  let ?df = "[(''foo'', [StrC ''hello'']), (''bar'', [IntC 1])]"
  have cols: "columns ?df = [''foo'', ''bar'']"
    by code_simp
  have no_text: "\<not> (\<exists>c \<in> set (columns ?df). email_text_hit (lower c))"
    "\<not> (\<exists>c \<in> set (columns ?df). sms_text_hit (lower c))"
    by code_simp+
  show ?thesis
    using C7_missing_columns [of ?df] no_text unfolding cols by blast
qed

section \<open>Label casts\<close>

lemma nonletter_fixed:
  "list_all (\<lambda>c. lower_char c = c)
     [CHR 0x09, CHR 0x0A, CHR 0x0B, CHR 0x0C, CHR 0x0D, CHR 0x1C, CHR 0x1D, CHR 0x1E,
      CHR 0x1F, CHR 0x20, CHR 0x85, CHR 0xA0]"
  "list_all (\<lambda>c. lower_char c = c) ''-+''"
  "list_all (\<lambda>c. lower_char c = c) ''0123456789''"
  by (simp_all add: lower_char_def)

lemma digit_val_dom: "digit_val c \<noteq> None \<Longrightarrow> c \<in> set ''0123456789''"
proof -
  assume "digit_val c \<noteq> None"
  then have "c \<in> fst ` set (zip ''0123456789'' [0, 1, 2, 3, 4, 5, 6, 7, 8, 9 :: nat])"
    unfolding digit_val_def map_of_eq_None_iff by simp
  also have "fst ` set (zip ''0123456789'' [0, 1, 2, 3, 4, 5, 6, 7, 8, 9 :: nat]) = set ''0123456789''"
    by (simp only: set_map [symmetric] map_fst_zip length_Cons list.size)
  finally show ?thesis .
qed

lemma letters_not_plain:
  "list_all (\<lambda>c. \<not> py_space c \<and> c \<noteq> CHR ''-'' \<and> c \<noteq> CHR ''+'' \<and> digit_val c = None) ''hlsnpm''"
  by (simp add: py_space_def digit_val_def)

lemma nonletter_lower:
  assumes "py_space c \<or> c = CHR ''-'' \<or> c = CHR ''+'' \<or> digit_val c \<noteq> None"
  shows "lower_char c = c"
proof -
  consider "py_space c" | "c \<in> set ''-+''" | "digit_val c \<noteq> None"
    using assms by auto
  then show ?thesis
  proof cases
    case 1
    then show ?thesis
      using nonletter_fixed(1) unfolding list_all_iff py_space_def by (rule_tac bspec)
  next
    case 2
    then show ?thesis
      using nonletter_fixed(2) unfolding list_all_iff by (rule_tac bspec)
  next
    case 3
    then have "c \<in> set ''0123456789''" by (rule digit_val_dom)
    then show ?thesis
      using nonletter_fixed(3) unfolding list_all_iff by (rule_tac bspec)
  qed
qed

lemma letter_plain:
  assumes "lower_char c \<in> set ''hlsnpm''"
  shows "\<not> py_space c \<and> c \<noteq> CHR ''-'' \<and> c \<noteq> CHR ''+'' \<and> digit_val c = None"
proof (cases "py_space c \<or> c = CHR ''-'' \<or> c = CHR ''+'' \<or> digit_val c \<noteq> None")
  case True
  then have "lower_char c = c" by (rule nonletter_lower)
  with assms have "c \<in> set ''hlsnpm''" by simp
  then show ?thesis
    using letters_not_plain unfolding list_all_iff by (rule_tac bspec)
next
  case False
  then show ?thesis by simp
qed

lemma dropWhile_snoc_keep:
  "\<not> P c \<Longrightarrow> \<exists>zs. dropWhile P (ys @ [c]) = zs @ [c]"
  by (induction ys) auto

lemma strip_keeps_head:
  assumes "\<not> py_space c"
  shows "\<exists>r. strip (c # cs) = c # r"
proof -
  obtain zs where "dropWhile py_space (rev cs @ [c]) = zs @ [c]"
    using dropWhile_snoc_keep [of py_space c "rev cs"] assms by blast
  then show ?thesis
    using assms by (simp add: strip_def)
qed

lemma py_int_plain_head:
  assumes "\<not> py_space c \<and> c \<noteq> CHR ''-'' \<and> c \<noteq> CHR ''+'' \<and> digit_val c = None"
  shows "py_int (c # cs) = None"
proof -
  obtain r where "strip (c # cs) = c # r"
    using strip_keeps_head assms by blast
  then show ?thesis
    using assms by (simp add: py_int_def py_nat_def Let_def)
qed

lemma those_map_Some:
  "(those (map f xs) = Some ys) = (map f xs = map Some ys)"
proof (induction xs arbitrary: ys)
  case Nil
  then show ?case by auto
next
  case (Cons x xs)
  show ?case
  proof (cases "f x")
    case None
    then show ?thesis by auto
  next
    case (Some y)
    have "(those (map f (x # xs)) = Some ys) =
            (\<exists>zs. those (map f xs) = Some zs \<and> ys = y # zs)"
      using Some by auto
    also have "\<dots> = (\<exists>zs. map f xs = map Some zs \<and> ys = y # zs)"
      by (simp add: Cons.IH)
    also have "\<dots> = (map f (x # xs) = map Some ys)"
      using Some by (cases ys) auto
    finally show ?thesis .
  qed
qed

lemma those_map_None:
  "(those (map f xs) = None) = (\<exists>x \<in> set xs. f x = None)"
  by (induction xs) (auto split: option.splits)

lemma those_length: "those (map f xs) = Some ys \<Longrightarrow> length ys = length xs"
  by (simp add: those_map_Some) (metis length_map)

lemma label_mapping_cases:
  "label_mapping w =
     (if w \<in> set [''ham'', ''legitimate'', ''safe'', ''normal''] then Some 0
      else if w \<in> set [''spam'', ''phishing'', ''phish'', ''malicious'', ''smishing'']
      then Some 1 else None)"
  by (simp add: label_mapping_def)

lemma lexicon_not_int:
  assumes "label_mapping (lower s) \<noteq> None"
  shows "py_int s = None"
proof -
  have mem: "lower s \<in> set [''ham'', ''legitimate'', ''safe'', ''normal'',
                       ''spam'', ''phishing'', ''phish'', ''malicious'', ''smishing'']"
    using assms by (auto simp add: label_mapping_cases split: if_splits)
  then obtain c cs where s: "s = c # cs"
    by (cases s) (auto simp add: lower_def)
  have "lower_char c \<in> set ''hlsnpm''"
    using mem unfolding s lower_def by auto
  then show ?thesis
    unfolding s by (intro py_int_plain_head letter_plain)
qed

lemma astype_int_lexicon:
  assumes "StrC s \<in> set cells" and "label_mapping (lower s) \<noteq> None"
  shows "astype_int cells = None"
  unfolding astype_int_def those_map_None
  using assms lexicon_not_int by (intro bexI [of _ "StrC s"]) auto

section \<open>The URL loader\<close>

lemma load_url_found:
  assumes "''url'' \<in> set (columns df)" and "''label'' \<in> set (columns df)"
  shows "load_url_dataset df =
           (case astype_int (map snd (dropna (col_of df ''url'') (col_of df ''label''))) of
              None \<Rightarrow> Inl LabelNotInt
            | Some ls \<Rightarrow> Inr (map fst (dropna (col_of df ''url'') (col_of df ''label'')), ls))"
  using assms by (simp add: load_url_dataset_def Let_def)

lemma load_url_missing:
  assumes "''url'' \<notin> set (columns df) \<or> ''label'' \<notin> set (columns df)"
  shows "load_url_dataset df =
           Inl (MissingUrlOrLabel ''Dataset must have 'url' and 'label' columns'')"
  using assms by (auto simp add: load_url_dataset_def)

text \<open>
  C10. The URL loader accepts a table only if it has a column named exactly \<open>url\<close>
  and a column named exactly \<open>label\<close>: a table lacking either name fails with the
  error of the column check (so \<open>URL\<close> or \<open>url_text\<close> do not count, there is no
  substring or case-insensitive matching and no choice among candidates), a successful
  load returns the rows of these two columns with every label cast by \<open>astype(int)\<close>,
  and a label that is a word of the short-message lexicon makes the load fail instead
  of being mapped.
\<close>

theorem C10_url_loader:
  "(''url'' \<notin> set (columns df) \<or> ''label'' \<notin> set (columns df) \<longrightarrow>
      load_url_dataset df =
        Inl (MissingUrlOrLabel ''Dataset must have 'url' and 'label' columns'')) \<and>
   (load_url_dataset df = Inr (urls, labels) \<longrightarrow>
      ''url'' \<in> set (columns df) \<and> ''label'' \<in> set (columns df) \<and>
      urls = map fst (dropna (col_of df ''url'') (col_of df ''label'')) \<and>
      map astype_int_cell (map snd (dropna (col_of df ''url'') (col_of df ''label''))) =
        map Some labels) \<and>
   (StrC s \<in> set (map snd (dropna (col_of df ''url'') (col_of df ''label''))) \<and>
    lower s \<in> set [''ham'', ''legitimate'', ''safe'', ''normal'', ''spam'', ''phishing'',
                    ''phish'', ''malicious'', ''smishing''] \<longrightarrow>
      (\<exists>e. load_url_dataset df = Inl e))"
proof (intro conjI impI)
  assume "''url'' \<notin> set (columns df) \<or> ''label'' \<notin> set (columns df)"
  then show "load_url_dataset df =
        Inl (MissingUrlOrLabel ''Dataset must have 'url' and 'label' columns'')"
    by (rule load_url_missing)
next
  assume ok: "load_url_dataset df = Inr (urls, labels)"
  have cols: "''url'' \<in> set (columns df) \<and> ''label'' \<in> set (columns df)"
  proof (rule ccontr)
    assume "\<not> ?thesis"
    then have "''url'' \<notin> set (columns df) \<or> ''label'' \<notin> set (columns df)" by simp
    then show False using ok load_url_missing [of df] by simp
  qed
  then show "''url'' \<in> set (columns df)" and "''label'' \<in> set (columns df)"
    by simp_all
  from cols ok
  have "astype_int (map snd (dropna (col_of df ''url'') (col_of df ''label''))) = Some labels \<and>
        urls = map fst (dropna (col_of df ''url'') (col_of df ''label''))"
    by (auto simp add: load_url_found split: option.splits)
  then show "urls = map fst (dropna (col_of df ''url'') (col_of df ''label''))"
    and "map astype_int_cell (map snd (dropna (col_of df ''url'') (col_of df ''label''))) =
        map Some labels"
    by (simp_all add: astype_int_def those_map_Some)
next
  assume a: "StrC s \<in> set (map snd (dropna (col_of df ''url'') (col_of df ''label''))) \<and>
    lower s \<in> set [''ham'', ''legitimate'', ''safe'', ''normal'', ''spam'', ''phishing'',
                    ''phish'', ''malicious'', ''smishing'']"
  then have "label_mapping (lower s) \<noteq> None"
    by (auto simp add: label_mapping_cases)
  with a have none: "astype_int (map snd (dropna (col_of df ''url'') (col_of df ''label''))) = None"
    by (intro astype_int_lexicon [of s]) simp_all
  show "\<exists>e. load_url_dataset df = Inl e"
  proof (cases "''url'' \<in> set (columns df) \<and> ''label'' \<in> set (columns df)")
    case True
    then show ?thesis by (simp add: load_url_found none)
  next
    case False
    then show ?thesis using load_url_missing [of df] by auto
  qed
qed

theorem C10_url_loader_witness:
  "load_url_dataset [(''URL'', [StrC ''http://a.b'']), (''label'', [IntC 1])] =
     Inl (MissingUrlOrLabel ''Dataset must have 'url' and 'label' columns'') \<and>
   load_url_dataset [(''url_text'', [StrC ''http://a.b'']), (''label'', [IntC 1])] =
     Inl (MissingUrlOrLabel ''Dataset must have 'url' and 'label' columns'') \<and>
   (\<exists>e. load_url_dataset [(''url'', [StrC ''http://a.b'']), (''label'', [StrC ''phishing''])] =
     Inl e)"
  using C10_url_loader [where df = "[(''URL'', [StrC ''http://a.b'']), (''label'', [IntC 1])]"]
    C10_url_loader [where df = "[(''url_text'', [StrC ''http://a.b'']), (''label'', [IntC 1])]"]
    C10_url_loader [where s = "''phishing''" and
      df = "[(''url'', [StrC ''http://a.b'']), (''label'', [StrC ''phishing''])]"]
  by (simp add: columns_def col_of_def dropna_def lower_def lower_char_def)

section \<open>Label normalisation\<close>

lemma map_label_cell_Some:
  assumes "map_label_cell c = Some l"
  shows "\<exists>s. c = StrC s \<and>
           (l = 0 \<and> lower s \<in> set [''ham'', ''legitimate'', ''safe'', ''normal''] \<or>
            l = 1 \<and> lower s \<in> set [''spam'', ''phishing'', ''phish'', ''malicious'',
                                      ''smishing''])"
proof (cases c)
  case (StrC s)
  then have "label_mapping (lower s) = Some l"
    using assms by simp
  then show ?thesis
    unfolding StrC label_mapping_cases by (auto split: if_splits)
qed (use assms in simp_all)

lemma map_label_cell_None:
  "(map_label_cell c = None) =
     (\<forall>s. c = StrC s \<longrightarrow>
        lower s \<notin> set [''ham'', ''legitimate'', ''safe'', ''normal'', ''spam'', ''phishing'',
                        ''phish'', ''malicious'', ''smishing''])"
  by (cases c) (auto simp add: label_mapping_cases)

lemma loaded_snd: "snd (loaded tc lc rows ls) = ls"
  by (simp add: loaded_def)

lemma sms_object_success:
  assumes scan: "scan_columns sms_text_hit sms_label_hit (columns df) = (Some tc, Some lc)"
    and obj: "is_object (col_of df lc)"
    and ok: "load_sms_dataset df = Inr (texts, labels)"
  shows "map map_label_cell (map snd (dropna (col_of df tc) (col_of df lc))) = map Some labels"
proof -
  have "those (map map_label_cell (map snd (dropna (col_of df tc) (col_of df lc)))) =
          Some labels"
    using ok obj unfolding load_sms_found [OF scan] sms_labels_def
    by (auto simp add: loaded_def split: option.splits)
  then show ?thesis
    by (simp only: those_map_Some)
qed

lemma sms_object_failure:
  assumes scan: "scan_columns sms_text_hit sms_label_hit (columns df) = (Some tc, Some lc)"
    and obj: "is_object (col_of df lc)"
  shows "(load_sms_dataset df = Inl LabelNotInt) =
           (\<exists>c \<in> set (map snd (dropna (col_of df tc) (col_of df lc))). map_label_cell c = None)"
    and "(\<exists>r. load_sms_dataset df = Inr r) =
           (\<forall>c \<in> set (map snd (dropna (col_of df tc) (col_of df lc))). map_label_cell c \<noteq> None)"
proof -
  let ?kept = "map snd (dropna (col_of df tc) (col_of df lc))"
  have eq: "load_sms_dataset df =
          (case those (map map_label_cell ?kept) of
             None \<Rightarrow> Inl LabelNotInt
           | Some ls \<Rightarrow> Inr (loaded tc lc (dropna (col_of df tc) (col_of df lc)) ls))"
    using obj unfolding load_sms_found [OF scan] sms_labels_def by simp
  have none: "(those (map map_label_cell ?kept) = None) =
           (\<exists>c \<in> set ?kept. map_label_cell c = None)"
    by (rule those_map_None)
  show "(load_sms_dataset df = Inl LabelNotInt) =
           (\<exists>c \<in> set ?kept. map_label_cell c = None)"
    unfolding eq none [symmetric] by (simp split: option.splits)
  show "(\<exists>r. load_sms_dataset df = Inr r) =
           (\<forall>c \<in> set ?kept. map_label_cell c \<noteq> None)"
    using none unfolding eq by (cases "those (map map_label_cell ?kept)") auto
qed

text \<open>
  C5, as stated, on the prose loader: a table whose label column holds the string
  \<open>spam\<close> is not loaded with label 1; the load fails, because this loader has no
  lexicon and casts the string with \<open>astype(int)\<close>.
\<close>

theorem C5_label_lexicon_counterexample:
  "load_email_dataset [(''text'', [StrC ''hello'']), (''label'', [StrC ''spam''])] =
     Inl LabelNotInt"
  by code_simp

text \<open>
  C5, amended. The short-message loader, when its label column holds strings, lowers
  each label and maps it by the fixed lexicon: \<open>ham\<close>, \<open>legitimate\<close>, \<open>safe\<close>,
  \<open>normal\<close> to 0 and \<open>spam\<close>, \<open>phishing\<close>, \<open>phish\<close>, \<open>malicious\<close>,
  \<open>smishing\<close> to 1. A load that succeeds returns one such label per remaining row; a
  remaining label outside the lexicon makes the load fail; when all remaining labels
  are in the lexicon the load succeeds. The prose loader applies no lexicon: a
  remaining label that is a lexicon word makes its load fail. (The same holds for the
  URL loader, see C10.)
\<close>

theorem C5_label_lexicon:
  "(scan_columns sms_text_hit sms_label_hit (columns df) = (Some tc, Some lc) \<and>
    is_object (col_of df lc) \<longrightarrow>
      (load_sms_dataset df = Inr (texts, labels) \<longrightarrow>
         length labels = length (dropna (col_of df tc) (col_of df lc)) \<and>
         (\<forall>i < length labels.
            \<exists>s. snd (dropna (col_of df tc) (col_of df lc) ! i) = StrC s \<and>
              (labels ! i = 0 \<and>
                 lower s \<in> set [''ham'', ''legitimate'', ''safe'', ''normal''] \<or>
               labels ! i = 1 \<and>
                 lower s \<in> set [''spam'', ''phishing'', ''phish'', ''malicious'',
                                 ''smishing'']))) \<and>
      ((\<exists>c \<in> set (map snd (dropna (col_of df tc) (col_of df lc))).
          \<forall>s. c = StrC s \<longrightarrow>
            lower s \<notin> set [''ham'', ''legitimate'', ''safe'', ''normal'', ''spam'',
                            ''phishing'', ''phish'', ''malicious'', ''smishing'']) \<longrightarrow>
         load_sms_dataset df = Inl LabelNotInt) \<and>
      ((\<forall>c \<in> set (map snd (dropna (col_of df tc) (col_of df lc))).
          \<exists>s. c = StrC s \<and>
            lower s \<in> set [''ham'', ''legitimate'', ''safe'', ''normal'', ''spam'',
                            ''phishing'', ''phish'', ''malicious'', ''smishing'']) \<longrightarrow>
         (\<exists>r. load_sms_dataset df = Inr r))) \<and>
   (scan_columns email_text_hit email_label_hit (columns df) = (Some tc, Some lc) \<and>
    StrC w \<in> set (map snd (dropna (col_of df tc) (col_of df lc))) \<and>
    lower w \<in> set [''ham'', ''legitimate'', ''safe'', ''normal'', ''spam'', ''phishing'',
                    ''phish'', ''malicious'', ''smishing''] \<longrightarrow>
      load_email_dataset df = Inl LabelNotInt)"
proof (intro conjI impI; (elim conjE)?)
  assume scan: "scan_columns sms_text_hit sms_label_hit (columns df) = (Some tc, Some lc)"
    and obj: "is_object (col_of df lc)"
    and ok: "load_sms_dataset df = Inr (texts, labels)"
  let ?rows = "dropna (col_of df tc) (col_of df lc)"
  have m: "map map_label_cell (map snd ?rows) = map Some labels"
    using scan obj ok by (rule sms_object_success)
  then have "length (map map_label_cell (map snd ?rows)) = length (map Some labels)"
    by simp
  then show len: "length labels = length ?rows"
    by simp
  show "\<forall>i < length labels.
            \<exists>s. snd (?rows ! i) = StrC s \<and>
              (labels ! i = 0 \<and>
                 lower s \<in> set [''ham'', ''legitimate'', ''safe'', ''normal''] \<or>
               labels ! i = 1 \<and>
                 lower s \<in> set [''spam'', ''phishing'', ''phish'', ''malicious'',
                                 ''smishing''])"
  proof (intro allI impI)
    fix i assume i: "i < length labels"
    have "map map_label_cell (map snd ?rows) ! i = map Some labels ! i"
      using m by simp
    then have "map_label_cell (snd (?rows ! i)) = Some (labels ! i)"
      using i len by simp
    then show "\<exists>s. snd (?rows ! i) = StrC s \<and>
              (labels ! i = 0 \<and>
                 lower s \<in> set [''ham'', ''legitimate'', ''safe'', ''normal''] \<or>
               labels ! i = 1 \<and>
                 lower s \<in> set [''spam'', ''phishing'', ''phish'', ''malicious'',
                                 ''smishing''])"
      by (rule map_label_cell_Some)
  qed
next
  assume scan: "scan_columns sms_text_hit sms_label_hit (columns df) = (Some tc, Some lc)"
    and obj: "is_object (col_of df lc)"
    and bad: "\<exists>c \<in> set (map snd (dropna (col_of df tc) (col_of df lc))).
          \<forall>s. c = StrC s \<longrightarrow>
            lower s \<notin> set [''ham'', ''legitimate'', ''safe'', ''normal'', ''spam'',
                            ''phishing'', ''phish'', ''malicious'', ''smishing'']"
  show "load_sms_dataset df = Inl LabelNotInt"
    unfolding sms_object_failure(1) [OF scan obj] map_label_cell_None
    using bad .
next
  assume scan: "scan_columns sms_text_hit sms_label_hit (columns df) = (Some tc, Some lc)"
    and obj: "is_object (col_of df lc)"
    and good: "\<forall>c \<in> set (map snd (dropna (col_of df tc) (col_of df lc))).
          \<exists>s. c = StrC s \<and>
            lower s \<in> set [''ham'', ''legitimate'', ''safe'', ''normal'', ''spam'',
                            ''phishing'', ''phish'', ''malicious'', ''smishing'']"
  have "\<forall>c \<in> set (map snd (dropna (col_of df tc) (col_of df lc))). map_label_cell c \<noteq> None"
    using good unfolding map_label_cell_None by blast
  then show "\<exists>r. load_sms_dataset df = Inr r"
    unfolding sms_object_failure(2) [OF scan obj] .
next
  assume scan: "scan_columns email_text_hit email_label_hit (columns df) = (Some tc, Some lc)"
    and mem: "StrC w \<in> set (map snd (dropna (col_of df tc) (col_of df lc)))"
    and lex: "lower w \<in> set [''ham'', ''legitimate'', ''safe'', ''normal'', ''spam'',
                    ''phishing'', ''phish'', ''malicious'', ''smishing'']"
  have "label_mapping (lower w) \<noteq> None"
    using lex by (auto simp add: label_mapping_cases)
  with mem have "astype_int (map snd (dropna (col_of df tc) (col_of df lc))) = None"
    by (rule astype_int_lexicon)
  then show "load_email_dataset df = Inl LabelNotInt"
    by (simp add: load_email_found [OF scan])
qed

theorem C5_label_lexicon_witness:
  "load_sms_dataset
     [(''Message'', [StrC ''hi'', NA, StrC ''yo'']),
      (''Class'', [StrC ''HAM'', StrC ''spam'', StrC ''junk''])] = Inl LabelNotInt \<and>
   (\<exists>r. load_sms_dataset
     [(''Message'', [StrC ''hi'', NA, StrC ''yo'']),
      (''Class'', [StrC ''HAM'', StrC ''spam'', StrC ''Smishing''])] = Inr r) \<and>
   load_email_dataset [(''text'', [StrC ''hello'']), (''label'', [StrC ''Ham''])] =
     Inl LabelNotInt"
proof -
  let ?bad = "[(''Message'', [StrC ''hi'', NA, StrC ''yo'']),
      (''Class'', [StrC ''HAM'', StrC ''spam'', StrC ''junk''])]"
  let ?good = "[(''Message'', [StrC ''hi'', NA, StrC ''yo'']),
      (''Class'', [StrC ''HAM'', StrC ''spam'', StrC ''Smishing''])]"
  let ?mail = "[(''text'', [StrC ''hello'']), (''label'', [StrC ''Ham''])]"
  have scan_bad: "scan_columns sms_text_hit sms_label_hit (columns ?bad) =
      (Some ''Message'', Some ''Class'')"
    by code_simp
  have obj_bad: "is_object (col_of ?bad ''Class'')"
    by code_simp
  have kept_bad: "map snd (dropna (col_of ?bad ''Message'') (col_of ?bad ''Class'')) =
      [StrC ''HAM'', StrC ''junk'']"
    by code_simp
  have low_bad: "lower ''junk'' = ''junk''"
    by code_simp
  have outside: "\<exists>c \<in> set (map snd (dropna (col_of ?bad ''Message'') (col_of ?bad ''Class''))).
          \<forall>s. c = StrC s \<longrightarrow>
            lower s \<notin> set [''ham'', ''legitimate'', ''safe'', ''normal'', ''spam'',
                            ''phishing'', ''phish'', ''malicious'', ''smishing'']"
    unfolding kept_bad using low_bad by simp
  have r1: "load_sms_dataset ?bad = Inl LabelNotInt"
    using C5_label_lexicon [where df = ?bad and tc = "''Message''" and lc = "''Class''"]
      scan_bad obj_bad outside by blast
  have scan_good: "scan_columns sms_text_hit sms_label_hit (columns ?good) =
      (Some ''Message'', Some ''Class'')"
    by code_simp
  have obj_good: "is_object (col_of ?good ''Class'')"
    by code_simp
  have kept_good: "map snd (dropna (col_of ?good ''Message'') (col_of ?good ''Class'')) =
      [StrC ''HAM'', StrC ''Smishing'']"
    by code_simp
  have low_good: "lower ''HAM'' = ''ham''" "lower ''Smishing'' = ''smishing''"
    by code_simp+
  have inside: "\<forall>c \<in> set (map snd (dropna (col_of ?good ''Message'') (col_of ?good ''Class''))).
          \<exists>s. c = StrC s \<and>
            lower s \<in> set [''ham'', ''legitimate'', ''safe'', ''normal'', ''spam'',
                            ''phishing'', ''phish'', ''malicious'', ''smishing'']"
    unfolding kept_good using low_good by simp
  have r2: "\<exists>r. load_sms_dataset ?good = Inr r"
    using C5_label_lexicon [where df = ?good and tc = "''Message''" and lc = "''Class''"]
      scan_good obj_good inside by blast
  have scan_mail: "scan_columns email_text_hit email_label_hit (columns ?mail) =
      (Some ''text'', Some ''label'')"
    by code_simp
  have kept_mail: "StrC ''Ham'' \<in> set (map snd (dropna (col_of ?mail ''text'') (col_of ?mail ''label'')))"
    by code_simp
  have low_mail: "lower ''Ham'' \<in> set [''ham'', ''legitimate'', ''safe'', ''normal'', ''spam'',
                    ''phishing'', ''phish'', ''malicious'', ''smishing'']"
    by code_simp
  have r3: "load_email_dataset ?mail = Inl LabelNotInt"
    using C5_label_lexicon [where df = ?mail and tc = "''text''" and lc = "''label''"
        and w = "''Ham''"]
      scan_mail kept_mail low_mail by blast
  show ?thesis
    using r1 r2 r3 by blast
qed

section \<open>Dataset counts in the metadata\<close>

lemma loaded_lengths:
  assumes "length ls = length rows"
  shows "length (fst (loaded tc lc rows ls)) = length rows \<and>
         length (snd (loaded tc lc rows ls)) = length rows"
  using assms by (simp add: loaded_def)

lemma astype_int_length: "astype_int cells = Some ls \<Longrightarrow> length ls = length cells"
  unfolding astype_int_def by (rule those_length)

lemma sms_labels_length: "sms_labels column cells = Some ls \<Longrightarrow> length ls = length cells"
  unfolding sms_labels_def by (auto split: if_splits dest: those_length astype_int_length)

lemma load_sms_success:
  assumes "load_sms_dataset df = Inr (messages, labels)"
  shows "\<exists>tc lc. scan_columns sms_text_hit sms_label_hit (columns df) = (Some tc, Some lc) \<and>
           length messages = length (dropna (col_of df tc) (col_of df lc)) \<and>
           length labels = length messages"
proof -
  obtain a b where ab: "scan_columns sms_text_hit sms_label_hit (columns df) = (a, b)"
    by (cases "scan_columns sms_text_hit sms_label_hit (columns df)")
  have "a \<noteq> None \<and> b \<noteq> None"
  proof (rule ccontr)
    assume "\<not> (a \<noteq> None \<and> b \<noteq> None)"
    then have "fst (scan_columns sms_text_hit sms_label_hit (columns df)) = None \<or>
           snd (scan_columns sms_text_hit sms_label_hit (columns df)) = None"
      using ab by auto
    from load_sms_missing [OF this] assms show False
      by simp
  qed
  then obtain tc lc where scan:
    "scan_columns sms_text_hit sms_label_hit (columns df) = (Some tc, Some lc)"
    using ab by auto
  let ?rows = "dropna (col_of df tc) (col_of df lc)"
  obtain ls where ls: "sms_labels (col_of df lc) (map snd ?rows) = Some ls"
    and res: "(messages, labels) = loaded tc lc ?rows ls"
    using assms unfolding load_sms_found [OF scan] by (auto split: option.splits)
  have "length ls = length ?rows"
    using sms_labels_length [OF ls] by simp
  then have "length messages = length ?rows \<and> length labels = length ?rows"
    using loaded_lengths [of ls ?rows tc lc] res [symmetric] by simp
  then show ?thesis using scan by auto
qed

lemma load_email_success:
  assumes "load_email_dataset df = Inr (emails, labels)"
  shows "\<exists>tc lc. scan_columns email_text_hit email_label_hit (columns df) = (Some tc, Some lc) \<and>
           length emails = length (dropna (col_of df tc) (col_of df lc)) \<and>
           length labels = length emails"
proof -
  obtain a b where ab: "scan_columns email_text_hit email_label_hit (columns df) = (a, b)"
    by (cases "scan_columns email_text_hit email_label_hit (columns df)")
  have "a \<noteq> None \<and> b \<noteq> None"
  proof (rule ccontr)
    assume "\<not> (a \<noteq> None \<and> b \<noteq> None)"
    then have "fst (scan_columns email_text_hit email_label_hit (columns df)) = None \<or>
           snd (scan_columns email_text_hit email_label_hit (columns df)) = None"
      using ab by auto
    from load_email_missing [OF this] assms show False
      by simp
  qed
  then obtain tc lc where scan:
    "scan_columns email_text_hit email_label_hit (columns df) = (Some tc, Some lc)"
    using ab by auto
  let ?rows = "dropna (col_of df tc) (col_of df lc)"
  obtain ls where ls: "astype_int (map snd ?rows) = Some ls"
    and res: "(emails, labels) = loaded tc lc ?rows ls"
    using assms unfolding load_email_found [OF scan] by (auto split: option.splits)
  have "length ls = length ?rows"
    using astype_int_length [OF ls] by simp
  then have "length emails = length ?rows \<and> length labels = length ?rows"
    using loaded_lengths [of ls ?rows tc lc] res [symmetric] by simp
  then show ?thesis using scan by auto
qed

lemma load_url_success:
  assumes "load_url_dataset df = Inr (urls, labels)"
  shows "length urls = length (dropna (col_of df ''url'') (col_of df ''label'')) \<and>
         length labels = length urls"
proof -
  have cols: "''url'' \<in> set (columns df) \<and> ''label'' \<in> set (columns df)"
    using assms load_url_missing [of df] by auto
  let ?rows = "dropna (col_of df ''url'') (col_of df ''label'')"
  have "astype_int (map snd ?rows) = Some labels \<and> urls = map fst ?rows"
    using assms cols by (auto simp add: load_url_found split: option.splits)
  then show ?thesis
    using astype_int_length [of "map snd ?rows" labels] by simp
qed

text \<open>
  C6, as stated, on the URL script: the \<open>dataset_info\<close> record it writes has no field
  \<open>legitimate_count\<close>.
\<close>

theorem C6_dataset_info_counterexample:
  "info_field ''legitimate_count''
     (url_metadata 1 1 1 1 0 [StrC ''http://a.b'', StrC ''http://c.d'']
        [[104]] [[105]] [0, 1]) = None"
  by (simp add: info_field_def dataset_info_def url_metadata_def)

text \<open>
  C6, amended. The metadata written after a successful load holds a \<open>dataset_info\<close>
  record of five integer fields: \<open>total_samples\<close>, \<open>training_samples\<close>,
  \<open>test_samples\<close>, a count of class 0 and \<open>phishing_count\<close>. The count of class 0
  is named \<open>legitimate_count\<close> by the prose and short-message scripts and
  \<open>safe_count\<close> by the URL script. \<open>total_samples\<close> is the number of loaded texts,
  which is the number of rows left after dropping the rows with a missing text or
  label, and equals the number of loaded labels; the two class counts are the numbers
  of labels 0 and of labels 1 in the whole loaded label sequence.
\<close>

theorem C6_dataset_info:
  "(load_sms_dataset df = Inr (messages, labels) \<longrightarrow>
      (\<exists>tc lc. scan_columns sms_text_hit sms_label_hit (columns df) = (Some tc, Some lc) \<and>
         length messages = length (dropna (col_of df tc) (col_of df lc)) \<and>
         length labels = length messages) \<and>
      dataset_info (sms_metadata test_acc precision recall f1 test_loss cw
          messages messages_train messages_test labels) =
        JObj [(''total_samples'', JInt (int (length messages))),
              (''training_samples'', JInt (int (length messages_train))),
              (''test_samples'', JInt (int (length messages_test))),
              (''legitimate_count'', JInt (int (length (filter (\<lambda>y. y = 0) labels)))),
              (''phishing_count'', JInt (int (length (filter (\<lambda>y. y = 1) labels))))]) \<and>
   (load_email_dataset df = Inr (messages, labels) \<longrightarrow>
      (\<exists>tc lc. scan_columns email_text_hit email_label_hit (columns df) = (Some tc, Some lc) \<and>
         length messages = length (dropna (col_of df tc) (col_of df lc)) \<and>
         length labels = length messages) \<and>
      dataset_info (email_metadata use_simplified test_acc precision recall f1 test_loss
          messages messages_train messages_test labels) =
        JObj [(''total_samples'', JInt (int (length messages))),
              (''training_samples'', JInt (int (length messages_train))),
              (''test_samples'', JInt (int (length messages_test))),
              (''legitimate_count'', JInt (int (length (filter (\<lambda>y. y = 0) labels)))),
              (''phishing_count'', JInt (int (length (filter (\<lambda>y. y = 1) labels))))]) \<and>
   (load_url_dataset df = Inr (messages, labels) \<longrightarrow>
      length messages = length (dropna (col_of df ''url'') (col_of df ''label'')) \<and>
      length labels = length messages \<and>
      dataset_info (url_metadata test_acc precision recall f1 test_loss
          messages X_train X_test labels) =
        JObj [(''total_samples'', JInt (int (length messages))),
              (''training_samples'', JInt (int (length X_train))),
              (''test_samples'', JInt (int (length X_test))),
              (''safe_count'', JInt (int (length (filter (\<lambda>y. y = 0) labels)))),
              (''phishing_count'', JInt (int (length (filter (\<lambda>y. y = 1) labels))))])"
proof (intro conjI impI)
  assume "load_sms_dataset df = Inr (messages, labels)"
  then show "\<exists>tc lc. scan_columns sms_text_hit sms_label_hit (columns df) = (Some tc, Some lc) \<and>
         length messages = length (dropna (col_of df tc) (col_of df lc)) \<and>
         length labels = length messages"
    by (rule load_sms_success)
next
  assume "load_email_dataset df = Inr (messages, labels)"
  then show "\<exists>tc lc. scan_columns email_text_hit email_label_hit (columns df) = (Some tc, Some lc) \<and>
         length messages = length (dropna (col_of df tc) (col_of df lc)) \<and>
         length labels = length messages"
    by (rule load_email_success)
next
  assume "load_url_dataset df = Inr (messages, labels)"
  then show "length messages = length (dropna (col_of df ''url'') (col_of df ''label''))"
    and "length labels = length messages"
    using load_url_success by simp_all
qed (simp_all add: dataset_info_def sms_metadata_def email_metadata_def url_metadata_def
      count_eq_def)

theorem C6_dataset_info_witness:
  "dataset_info (sms_metadata 0.9 0.8 0.7 0.75 0.3 None
       [StrC ''hi'', StrC ''yo''] [StrC ''hi''] [StrC ''yo''] [0, 1]) =
     JObj [(''total_samples'', JInt 2), (''training_samples'', JInt 1),
           (''test_samples'', JInt 1), (''legitimate_count'', JInt 1),
           (''phishing_count'', JInt 1)] \<and>
   dataset_info (email_metadata True 0.9 0.8 0.7 0.75 0.3
       [StrC ''hi'', StrC ''yo''] [StrC ''hi''] [StrC ''yo''] [0, 1]) =
     JObj [(''total_samples'', JInt 2), (''training_samples'', JInt 1),
           (''test_samples'', JInt 1), (''legitimate_count'', JInt 1),
           (''phishing_count'', JInt 1)] \<and>
   dataset_info (url_metadata 0.9 0.8 0.7 0.75 0.3
       [StrC ''http://a.b'', StrC ''http://c.d''] [[104]] [[105]] [1, 1]) =
     JObj [(''total_samples'', JInt 2), (''training_samples'', JInt 1),
           (''test_samples'', JInt 1), (''safe_count'', JInt 0),
           (''phishing_count'', JInt 2)]"
proof -
  have sms: "load_sms_dataset
      [(''Message'', [StrC ''hi'', NA, StrC ''yo'']),
       (''Class'', [StrC ''HAM'', StrC ''spam'', StrC ''Smishing''])] =
      Inr ([StrC ''hi'', StrC ''yo''], [0, 1])"
    by code_simp
  have email: "load_email_dataset
      [(''email_text'', [StrC ''hi'', NA, StrC ''yo'']),
       (''label'', [IntC 0, IntC 1, IntC 1])] =
      Inr ([StrC ''hi'', StrC ''yo''], [0, 1])"
    by code_simp
  have url: "load_url_dataset
      [(''url'', [StrC ''http://a.b'', StrC ''http://c.d'', StrC ''http://e.f'']),
       (''label'', [IntC 1, IntC 1, NA])] =
      Inr ([StrC ''http://a.b'', StrC ''http://c.d''], [1, 1])"
    by code_simp
  show ?thesis
    using
      C6_dataset_info [where df = "[(''Message'', [StrC ''hi'', NA, StrC ''yo'']),
          (''Class'', [StrC ''HAM'', StrC ''spam'', StrC ''Smishing''])]"
        and messages = "[StrC ''hi'', StrC ''yo'']" and labels = "[0, 1]"
        and messages_train = "[StrC ''hi'']" and messages_test = "[StrC ''yo'']"
        and test_acc = "0.9" and precision = "0.8" and recall = "0.7" and ?f1.0 = "0.75"
        and test_loss = "0.3" and cw = None]
      C6_dataset_info [where df = "[(''email_text'', [StrC ''hi'', NA, StrC ''yo'']),
          (''label'', [IntC 0, IntC 1, IntC 1])]"
        and messages = "[StrC ''hi'', StrC ''yo'']" and labels = "[0, 1]"
        and messages_train = "[StrC ''hi'']" and messages_test = "[StrC ''yo'']"
        and test_acc = "0.9" and precision = "0.8" and recall = "0.7" and ?f1.0 = "0.75"
        and test_loss = "0.3" and use_simplified = True]
      C6_dataset_info [where df = "[(''url'', [StrC ''http://a.b'', StrC ''http://c.d'',
            StrC ''http://e.f'']), (''label'', [IntC 1, IntC 1, NA])]"
        and messages = "[StrC ''http://a.b'', StrC ''http://c.d'']" and labels = "[1, 1]"
        and X_train = "[[104]]" and X_test = "[[105]]"
        and test_acc = "0.9" and precision = "0.8" and recall = "0.7" and ?f1.0 = "0.75"
        and test_loss = "0.3"]
      sms email url
    by simp
qed

section \<open>Word-level vocabulary\<close>

lemma token_counts_keys: "map fst (token_counts toks) = remdups toks"
  by (simp add: token_counts_def comp_def)

lemma token_counts_mem:
  "((t, c) \<in> set (token_counts toks)) = (t \<in> set toks \<and> c = count_list toks t)"
  by (auto simp add: token_counts_def)

lemma by_frequency_set: "set (by_frequency tc) = set tc"
  by (simp add: by_frequency_def)

lemma by_frequency_length: "length (by_frequency tc) = length tc"
  by (simp add: by_frequency_def)

lemma by_frequency_distinct_keys:
  assumes "distinct (map fst tc)"
  shows "distinct (map fst (by_frequency tc))"
proof -
  have "distinct tc" and "inj_on fst (set tc)"
    using assms by (simp_all add: distinct_map)
  then have "distinct (by_frequency tc)" and "inj_on fst (set (by_frequency tc))"
    by (simp_all add: by_frequency_def)
  then show ?thesis
    by (simp add: distinct_map)
qed

lemma by_frequency_descending:
  "sorted_wrt (\<lambda>x y. (snd y, fst y) \<le> (snd x, fst x)) (by_frequency tc)"
proof -
  have "sorted (map (\<lambda>(t, c). (c, t)) (sort_key (\<lambda>(t, c). (c, t)) tc))"
    by (rule sorted_sort_key)
  then have "sorted_wrt (\<lambda>x y. (snd x, fst x) \<le> (snd y, fst y))
               (sort_key (\<lambda>(t, c). (c, t)) tc)"
    by (simp add: sorted_wrt_map case_prod_unfold)
  then show ?thesis
    by (simp add: by_frequency_def sorted_wrt_rev)
qed

lemma index_of_None: "(index_of x xs = None) = (x \<notin> set xs)"
  by (induction xs) auto

lemma index_of_nth:
  assumes "distinct xs" and "i < length xs"
  shows "index_of (xs ! i) xs = Some i"
  using assms
proof (induction xs arbitrary: i)
  case Nil
  then show ?case by simp
next
  case (Cons x xs)
  show ?case
  proof (cases i)
    case 0
    then show ?thesis by simp
  next
    case (Suc j)
    then have "xs ! j \<in> set xs" and "index_of (xs ! j) xs = Some j"
      using Cons by simp_all
    then show ?thesis
      using Cons.prems(1) Suc by auto
  qed
qed

lemma vectorize_length: "length (vectorize layer toks) = output_sequence_length layer"
  by (simp add: vectorize_def Let_def)

lemma vectorize_nth:
  assumes "j < output_sequence_length layer"
  shows "vectorize layer toks ! j =
           (if j < length toks then lookup_token layer (toks ! j) else 0)"
  using assms by (auto simp add: vectorize_def Let_def nth_append)

lemma fst_in_keys: "(t, c) \<in> set xs \<Longrightarrow> t \<in> set (map fst xs)"
  by force

lemma kept_counts_mem:
  "((t, c) \<in> set (filter (\<lambda>(t, c). t \<noteq> mask_token \<and> t \<noteq> oov_token) (token_counts toks))) =
     (t \<in> set toks \<and> t \<noteq> mask_token \<and> t \<noteq> oov_token \<and> c = count_list toks t)"
  by (auto simp add: token_counts_mem)

lemma kept_counts_distinct:
  "distinct (map fst (filter (\<lambda>(t, c). t \<noteq> mask_token \<and> t \<noteq> oov_token) (token_counts toks)))"
  by (rule distinct_map_filter) (simp add: token_counts_keys)

lemma kept_counts_keys:
  "set (map fst (filter (\<lambda>(t, c). t \<noteq> mask_token \<and> t \<noteq> oov_token) (token_counts toks))) =
     set toks - {mask_token, oov_token}"
proof (intro set_eqI iffI)
  fix t
  assume "t \<in> set (map fst (filter (\<lambda>(t, c). t \<noteq> mask_token \<and> t \<noteq> oov_token)
            (token_counts toks)))"
  then obtain c where
    "(t, c) \<in> set (filter (\<lambda>(t, c). t \<noteq> mask_token \<and> t \<noteq> oov_token) (token_counts toks))"
    by auto
  then show "t \<in> set toks - {mask_token, oov_token}"
    unfolding kept_counts_mem by simp
next
  fix t
  assume "t \<in> set toks - {mask_token, oov_token}"
  then have
    "(t, count_list toks t) \<in>
       set (filter (\<lambda>(t, c). t \<noteq> mask_token \<and> t \<noteq> oov_token) (token_counts toks))"
    unfolding kept_counts_mem by simp
  then show "t \<in> set (map fst (filter (\<lambda>(t, c). t \<noteq> mask_token \<and> t \<noteq> oov_token)
            (token_counts toks)))"
    by (rule fst_in_keys)
qed

lemma kept_counts_length:
  "length (filter (\<lambda>(t, c). t \<noteq> mask_token \<and> t \<noteq> oov_token) (token_counts toks)) =
     card (set toks - {mask_token, oov_token})"
proof -
  let ?F = "filter (\<lambda>(t, c). t \<noteq> mask_token \<and> t \<noteq> oov_token) (token_counts toks)"
  have "length ?F = length (map fst ?F)"
    by simp
  also have "\<dots> = card (set (map fst ?F))"
    using kept_counts_distinct [of toks] by (simp only: distinct_card)
  finally show ?thesis
    by (simp only: kept_counts_keys)
qed

lemma fit_tokens_eq:
  "fit_tokens cap docs =
     map fst (take (nat (cap - 2))
       (by_frequency (filter (\<lambda>(t, c). t \<noteq> mask_token \<and> t \<noteq> oov_token)
          (token_counts (concat docs)))))"
  by (simp add: fit_tokens_def take_map)

lemma fit_tokens_distinct: "distinct (fit_tokens cap docs)"
proof -
  let ?B = "by_frequency (filter (\<lambda>(t, c). t \<noteq> mask_token \<and> t \<noteq> oov_token)
          (token_counts (concat docs)))"
  have "distinct (map fst ?B)"
    by (intro by_frequency_distinct_keys kept_counts_distinct)
  then have "distinct (take (nat (cap - 2)) (map fst ?B))"
    by (rule distinct_take)
  then show ?thesis
    by (simp only: fit_tokens_def)
qed

lemma fit_tokens_subset:
  "set (fit_tokens cap docs) \<subseteq> set (concat docs) - {mask_token, oov_token}"
proof -
  let ?F = "filter (\<lambda>(t, c). t \<noteq> mask_token \<and> t \<noteq> oov_token) (token_counts (concat docs))"
  have "set (fit_tokens cap docs) \<subseteq> set (map fst (by_frequency ?F))"
    unfolding fit_tokens_eq by (auto dest: in_set_takeD)
  also have "\<dots> = set (map fst ?F)"
    by (simp add: by_frequency_set)
  finally show ?thesis
    by (simp only: kept_counts_keys)
qed

lemma fit_tokens_length:
  "length (fit_tokens cap docs) =
     min (nat (cap - 2)) (card (set (concat docs) - {mask_token, oov_token}))"
  by (simp add: fit_tokens_eq by_frequency_length kept_counts_length min.commute)

lemma min_zero_iff: "(min a b = 0) = (a = 0 \<or> b = (0::nat))"
  by (cases "a \<le> b") (auto simp add: min_def)

lemma fit_tokens_empty:
  "(fit_tokens cap docs = []) =
     (cap \<le> 2 \<or> \<not> (\<exists>t \<in> set (concat docs). t \<noteq> mask_token \<and> t \<noteq> oov_token))"
proof -
  have "(fit_tokens cap docs = []) = (length (fit_tokens cap docs) = 0)"
    by simp
  also have "\<dots> = (nat (cap - 2) = 0 \<or>
      card (set (concat docs) - {mask_token, oov_token}) = 0)"
    by (simp only: fit_tokens_length min_zero_iff)
  also have "\<dots> = (cap \<le> 2 \<or> set (concat docs) - {mask_token, oov_token} = {})"
    by simp
  also have "\<dots> =
      (cap \<le> 2 \<or> \<not> (\<exists>t \<in> set (concat docs). t \<noteq> mask_token \<and> t \<noteq> oov_token))"
    by auto
  finally show ?thesis .
qed

lemma fit_tokens_top:
  assumes t: "t \<in> set (fit_tokens cap docs)"
    and u: "u \<in> set (concat docs)" "u \<noteq> mask_token" "u \<noteq> oov_token"
      "u \<notin> set (fit_tokens cap docs)"
  shows "count_list (concat docs) u \<le> count_list (concat docs) t"
proof -
  let ?toks = "concat docs"
  let ?F = "filter (\<lambda>(t, c). t \<noteq> mask_token \<and> t \<noteq> oov_token) (token_counts ?toks)"
  let ?B = "by_frequency ?F"
  let ?n = "nat (cap - 2)"
  obtain c where tc: "(t, c) \<in> set (take ?n ?B)"
    using t unfolding fit_tokens_eq by auto
  then have "(t, c) \<in> set ?F"
    using by_frequency_set [of ?F] by (auto dest: in_set_takeD)
  then have c: "c = count_list ?toks t"
    unfolding kept_counts_mem by simp
  have "(u, count_list ?toks u) \<in> set ?F"
    unfolding kept_counts_mem using u by simp
  then have "(u, count_list ?toks u) \<in> set ?B"
    by (simp only: by_frequency_set)
  then have "(u, count_list ?toks u) \<in> set (take ?n ?B) \<union> set (drop ?n ?B)"
    by (simp only: set_append [symmetric] append_take_drop_id)
  moreover have "(u, count_list ?toks u) \<notin> set (take ?n ?B)"
  proof
    assume "(u, count_list ?toks u) \<in> set (take ?n ?B)"
    then have "u \<in> set (map fst (take ?n ?B))"
      by (rule fst_in_keys)
    then show False
      using u(4) unfolding fit_tokens_eq by simp
  qed
  ultimately have ud: "(u, count_list ?toks u) \<in> set (drop ?n ?B)"
    by simp
  have "sorted_wrt (\<lambda>x y. (snd y, fst y) \<le> (snd x, fst x)) (take ?n ?B @ drop ?n ?B)"
    using by_frequency_descending [of ?F] by simp
  then have "\<forall>x \<in> set (take ?n ?B). \<forall>y \<in> set (drop ?n ?B). (snd y, fst y) \<le> (snd x, fst x)"
    unfolding sorted_wrt_append by simp
  then have "(count_list ?toks u, u) \<le> (c, t)"
    using tc ud by fastforce
  then show ?thesis
    unfolding c by auto
qed

lemma preprocess_sms_unfold:
  "preprocess_sms tok messages vocab_size max_length =
     (if vocab_size \<le> 1 then Inl MaxTokensTooSmall
      else if fit_tokens vocab_size (map tok messages) = [] then Inl NoTokenLearned
      else Inr
        (map (vectorize \<lparr>max_tokens = vocab_size, output_sequence_length = max_length,
                 learned = fit_tokens vocab_size (map tok messages)\<rparr>) (map tok messages),
         \<lparr>max_tokens = vocab_size, output_sequence_length = max_length,
            learned = fit_tokens vocab_size (map tok messages)\<rparr>))"
  by (simp add: preprocess_sms_def TextVectorization_def adapt_def Let_def)

lemma preprocess_emails_unfold:
  "preprocess_emails_for_lstm tok messages vocab_size max_length =
     (if vocab_size \<le> 1 then Inl MaxTokensTooSmall
      else if fit_tokens vocab_size (map tok messages) = [] then Inl NoTokenLearned
      else Inr
        (map (vectorize \<lparr>max_tokens = vocab_size, output_sequence_length = max_length,
                 learned = fit_tokens vocab_size (map tok messages)\<rparr>) (map tok messages),
         \<lparr>max_tokens = vocab_size, output_sequence_length = max_length,
            learned = fit_tokens vocab_size (map tok messages)\<rparr>))"
  by (simp add: preprocess_emails_for_lstm_def TextVectorization_def adapt_def Let_def)

lemma lookup_learned:
  assumes "distinct (learned layer)" and "mask_token \<notin> set (learned layer)"
    and "i < length (learned layer)"
  shows "lookup_token layer (learned layer ! i) = i + 2"
proof -
  have "learned layer ! i \<noteq> mask_token"
    using assms(2,3) by (metis nth_mem)
  then show ?thesis
    using index_of_nth [OF assms(1,3)] by (simp add: lookup_token_def)
qed

lemma lookup_unseen:
  assumes "t \<notin> set (learned layer)" and "t \<noteq> mask_token"
  shows "lookup_token layer t = 1"
  using assms by (simp add: lookup_token_def index_of_None [THEN iffD2])

text \<open>
  C2, as stated, fails in two ways. With a cap of 3 and the tokens \<open>a\<close> (three
  times), \<open>b\<close> (twice) and \<open>c\<close> (once), the fitted vocabulary retains one token,
  not the top \<open>3 - 1 = 2\<close>, and gives it id 2, not id 1; \<open>b\<close> and \<open>c\<close> are encoded
  as 1. With the script's cap of 5000, a token never seen in training (\<open>hello\<close>) is
  encoded as 1, not as 0; 0 only pads.
\<close>

theorem C2_vocabulary_counterexample:
  "preprocess_sms id [[''a'', ''a'', ''a'', ''b'', ''b'', ''c'']] 3 4 =
     Inr ([[2, 2, 2, 1]],
          \<lparr>max_tokens = 3, output_sequence_length = 4, learned = [''a'']\<rparr>) \<and>
   preprocess_sms id [[''free'', ''prize'']] SMS_VOCAB_SIZE 3 =
     Inr ([[3, 2, 0]],
          \<lparr>max_tokens = 5000, output_sequence_length = 3,
             learned = [''prize'', ''free'']\<rparr>) \<and>
   vectorize \<lparr>max_tokens = 5000, output_sequence_length = 3,
              learned = [''prize'', ''free'']\<rparr> [''hello''] = [1, 0, 0]"
  by code_simp

text \<open>
  C2, amended. A word-level training run fits a vocabulary exactly when the cap is at
  least 3 and the training texts hold a token besides the two reserved ones; with a
  cap of 1 or less the layer cannot be constructed, and with a cap of 2 or no such
  token the fit fails. For every run that fits a vocabulary, id 0 is reserved for
  padding (the empty mask token) and id 1 for any out-of-vocabulary token; the fitted
  vocabulary retains the top \<open>vocab_size - 2\<close> tokens of the training texts by
  frequency (all of them when there are fewer), without repetition, with the ids 2, 3,
  ... in that order: no token left out is more frequent than a retained one. Encoding
  maps every token that is not retained, in particular every token unseen in training,
  to id 1, cuts to the maximum length and pads with 0 on the right, so every encoded
  row has exactly the maximum length. The vocabulary size, the two reserved entries
  included, never exceeds the configured cap.
\<close>

theorem C2_vocabulary:
  "(preprocess_sms tok messages vocab_size max_length = Inr (X, layer) \<or>
    preprocess_emails_for_lstm tok messages vocab_size max_length = Inr (X, layer) \<longrightarrow>
      3 \<le> vocab_size \<and>
      learned layer \<noteq> [] \<and>
      get_vocabulary layer ! 0 = mask_token \<and>
      get_vocabulary layer ! 1 = oov_token \<and>
      int (length (get_vocabulary layer)) \<le> vocab_size \<and>
      distinct (learned layer) \<and>
      set (learned layer) \<subseteq> set (concat (map tok messages)) - {mask_token, oov_token} \<and>
      length (learned layer) =
        min (nat (vocab_size - 2))
            (card (set (concat (map tok messages)) - {mask_token, oov_token})) \<and>
      (\<forall>t \<in> set (learned layer). \<forall>u \<in> set (concat (map tok messages)).
         u \<noteq> mask_token \<and> u \<noteq> oov_token \<and> u \<notin> set (learned layer) \<longrightarrow>
           count_list (concat (map tok messages)) u \<le>
           count_list (concat (map tok messages)) t) \<and>
      (\<forall>i < length (learned layer).
         lookup_token layer (learned layer ! i) = i + 2 \<and>
         get_vocabulary layer ! (i + 2) = learned layer ! i) \<and>
      lookup_token layer mask_token = 0 \<and>
      (\<forall>t. t \<notin> set (learned layer) \<and> t \<noteq> mask_token \<longrightarrow> lookup_token layer t = 1) \<and>
      (\<forall>t. t \<notin> set (concat (map tok messages)) \<and> t \<noteq> mask_token \<longrightarrow>
         lookup_token layer t = 1) \<and>
      X = map (\<lambda>m. vectorize layer (tok m)) messages \<and>
      (\<forall>ts. length (vectorize layer ts) = max_length \<and>
         (\<forall>j < max_length.
            vectorize layer ts ! j =
              (if j < length ts then lookup_token layer (ts ! j) else 0)))) \<and>
   ((\<exists>r. preprocess_sms tok messages vocab_size max_length = Inr r) =
      (3 \<le> vocab_size \<and>
       (\<exists>t \<in> set (concat (map tok messages)). t \<noteq> mask_token \<and> t \<noteq> oov_token))) \<and>
   ((\<exists>r. preprocess_emails_for_lstm tok messages vocab_size max_length = Inr r) =
      (3 \<le> vocab_size \<and>
       (\<exists>t \<in> set (concat (map tok messages)). t \<noteq> mask_token \<and> t \<noteq> oov_token))) \<and>
   (vocab_size \<le> 1 \<longrightarrow>
      preprocess_sms tok messages vocab_size max_length = Inl MaxTokensTooSmall \<and>
      preprocess_emails_for_lstm tok messages vocab_size max_length =
        Inl MaxTokensTooSmall) \<and>
   (2 \<le> vocab_size \<and>
    (vocab_size = 2 \<or>
     \<not> (\<exists>t \<in> set (concat (map tok messages)). t \<noteq> mask_token \<and> t \<noteq> oov_token)) \<longrightarrow>
      preprocess_sms tok messages vocab_size max_length = Inl NoTokenLearned \<and>
      preprocess_emails_for_lstm tok messages vocab_size max_length = Inl NoTokenLearned)"
proof (intro conjI impI)
  assume "preprocess_sms tok messages vocab_size max_length = Inr (X, layer) \<or>
    preprocess_emails_for_lstm tok messages vocab_size max_length = Inr (X, layer)"
  then have fit: "2 \<le> vocab_size \<and>
      fit_tokens vocab_size (map tok messages) \<noteq> [] \<and>
      layer = \<lparr>max_tokens = vocab_size, output_sequence_length = max_length,
                 learned = fit_tokens vocab_size (map tok messages)\<rparr> \<and>
      X = map (vectorize layer) (map tok messages)"
    unfolding preprocess_sms_unfold preprocess_emails_unfold
    by (auto split: if_splits)
  let ?docs = "map tok messages"
  from fit have layer: "learned layer = fit_tokens vocab_size ?docs"
    and out: "output_sequence_length layer = max_length"
    by simp_all
  from fit show ne: "learned layer \<noteq> []"
    by simp
  from fit show v: "3 \<le> vocab_size"
    using fit_tokens_empty [of vocab_size ?docs] by auto
  show "get_vocabulary layer ! 0 = mask_token"
    and "get_vocabulary layer ! 1 = oov_token"
    by (simp_all add: get_vocabulary_def)
  show dist: "distinct (learned layer)"
    unfolding layer by (rule fit_tokens_distinct)
  show sub: "set (learned layer) \<subseteq> set (concat ?docs) - {mask_token, oov_token}"
    unfolding layer by (rule fit_tokens_subset)
  show len: "length (learned layer) =
        min (nat (vocab_size - 2)) (card (set (concat ?docs) - {mask_token, oov_token}))"
    unfolding layer by (rule fit_tokens_length)
  from len have "length (learned layer) \<le> nat (vocab_size - 2)"
    by simp
  then show "int (length (get_vocabulary layer)) \<le> vocab_size"
    using v by (simp add: get_vocabulary_def)
  show "\<forall>t \<in> set (learned layer). \<forall>u \<in> set (concat ?docs).
         u \<noteq> mask_token \<and> u \<noteq> oov_token \<and> u \<notin> set (learned layer) \<longrightarrow>
           count_list (concat ?docs) u \<le> count_list (concat ?docs) t"
    unfolding layer using fit_tokens_top [of _ vocab_size ?docs] by blast
  have nomask: "mask_token \<notin> set (learned layer)"
    using sub by auto
  show "\<forall>i < length (learned layer).
         lookup_token layer (learned layer ! i) = i + 2 \<and>
         get_vocabulary layer ! (i + 2) = learned layer ! i"
    using lookup_learned [OF dist nomask] by (simp add: get_vocabulary_def)
  show "lookup_token layer mask_token = 0"
    by (simp add: lookup_token_def)
  show unseen: "\<forall>t. t \<notin> set (learned layer) \<and> t \<noteq> mask_token \<longrightarrow> lookup_token layer t = 1"
    using lookup_unseen by blast
  show "\<forall>t. t \<notin> set (concat ?docs) \<and> t \<noteq> mask_token \<longrightarrow> lookup_token layer t = 1"
    using unseen sub by blast
  from fit show "X = map (\<lambda>m. vectorize layer (tok m)) messages"
    by (simp add: comp_def)
  show "\<forall>ts. length (vectorize layer ts) = max_length \<and>
         (\<forall>j < max_length.
            vectorize layer ts ! j =
              (if j < length ts then lookup_token layer (ts ! j) else 0))"
    using vectorize_length [of layer] vectorize_nth [of _ layer] unfolding out by blast
next
  show "(\<exists>r. preprocess_sms tok messages vocab_size max_length = Inr r) =
      (3 \<le> vocab_size \<and>
       (\<exists>t \<in> set (concat (map tok messages)). t \<noteq> mask_token \<and> t \<noteq> oov_token))"
    unfolding preprocess_sms_unfold fit_tokens_empty by auto
next
  show "(\<exists>r. preprocess_emails_for_lstm tok messages vocab_size max_length = Inr r) =
      (3 \<le> vocab_size \<and>
       (\<exists>t \<in> set (concat (map tok messages)). t \<noteq> mask_token \<and> t \<noteq> oov_token))"
    unfolding preprocess_emails_unfold fit_tokens_empty by auto
next
  assume "vocab_size \<le> 1"
  then show "preprocess_sms tok messages vocab_size max_length = Inl MaxTokensTooSmall"
    and "preprocess_emails_for_lstm tok messages vocab_size max_length =
        Inl MaxTokensTooSmall"
    unfolding preprocess_sms_unfold preprocess_emails_unfold by simp_all
next
  assume a: "2 \<le> vocab_size \<and>
    (vocab_size = 2 \<or>
     \<not> (\<exists>t \<in> set (concat (map tok messages)). t \<noteq> mask_token \<and> t \<noteq> oov_token))"
  then have "fit_tokens vocab_size (map tok messages) = []"
    unfolding fit_tokens_empty by auto
  with a show "preprocess_sms tok messages vocab_size max_length = Inl NoTokenLearned"
    and "preprocess_emails_for_lstm tok messages vocab_size max_length = Inl NoTokenLearned"
    unfolding preprocess_sms_unfold preprocess_emails_unfold by simp_all
qed

theorem C2_vocabulary_witness:
  "lookup_token \<lparr>max_tokens = 3, output_sequence_length = 4, learned = [''a'']\<rparr>
     ''hello'' = 1 \<and>
   lookup_token \<lparr>max_tokens = 3, output_sequence_length = 4, learned = [''a'']\<rparr>
     ''a'' = 2 \<and>
   int (length (get_vocabulary
     \<lparr>max_tokens = 3, output_sequence_length = 4, learned = [''a'']\<rparr>)) \<le> 3 \<and>
   length (vectorize \<lparr>max_tokens = 3, output_sequence_length = 4, learned = [''a'']\<rparr>
     [''a'', ''hello'']) = 4 \<and>
   preprocess_sms id [[''a'', ''a'', ''a'', ''b'', ''b'', ''c'']] 2 4 = Inl NoTokenLearned \<and>
   preprocess_emails_for_lstm id [[] :: string list] 5000 4 = Inl NoTokenLearned \<and>
   preprocess_sms id [[''a'', ''a'', ''a'', ''b'', ''b'', ''c'']] 1 4 =
     Inl MaxTokensTooSmall"
proof -
  let ?layer = "\<lparr>max_tokens = 3, output_sequence_length = 4, learned = [''a'']\<rparr>"
  let ?docs = "[[''a'', ''a'', ''a'', ''b'', ''b'', ''c'']]"
  have fit: "preprocess_sms id ?docs 3 4 = Inr ([[2, 2, 2, 1]], ?layer)"
    by code_simp
  note fitted = C2_vocabulary [where tok = id and messages = ?docs and vocab_size = 3
      and max_length = 4 and X = "[[2, 2, 2, 1]]" and layer = ?layer]
  note props = fitted [THEN conjunct1, THEN mp, OF disjI1 [OF fit]]
  have unseen: "''hello'' \<notin> set (learned ?layer) \<and> ''hello'' \<noteq> mask_token"
    by (simp add: mask_token_def)
  have "lookup_token ?layer ''hello'' = 1"
    using props unseen by blast
  moreover have "lookup_token ?layer (learned ?layer ! 0) = 0 + 2"
    using props by (elim conjE) (drule spec [of _ 0], simp)
  moreover have "int (length (get_vocabulary ?layer)) \<le> 3"
    using props by blast
  moreover have "length (vectorize ?layer [''a'', ''hello'']) = 4"
    using props by blast
  moreover have "preprocess_sms id ?docs 2 4 = Inl NoTokenLearned"
    using C2_vocabulary [where tok = id and messages = ?docs and vocab_size = 2
      and max_length = 4] by simp
  moreover have "preprocess_emails_for_lstm id [[] :: string list] 5000 4 = Inl NoTokenLearned"
    using C2_vocabulary [where tok = id and messages = "[[] :: string list]"
      and vocab_size = 5000 and max_length = 4] by simp
  moreover have "preprocess_sms id ?docs 1 4 = Inl MaxTokensTooSmall"
    using C2_vocabulary [where tok = id and messages = ?docs and vocab_size = 1
      and max_length = 4] by simp
  ultimately show ?thesis
    by simp
qed

end
